theory Spec2Isabelle
  imports Complex_Main
begin

section \<open>The triangular lattice (util.ts)\<close>

text \<open>
  JavaScript numbers that hold coordinates and angles are modelled as exact reals; row and
  column counts and loop indices are integers. The rounding of IEEE doubles is not
  modelled, so nothing here is stated about the exact equality of two computed coordinates. An anchor object is addressed by its place
  \<open>(row, col)\<close> in the \<open>anchors\<close> grid, a triangle object by its place in the
  \<open>triangles\<close> array (the value later stored in its field \<open>i\<close>): each object is
  created exactly once, so the address stands for the reference.
\<close>

datatype error = TypeError

type_synonym aref = "int \<times> int"

text \<open>The six neighbour fields of an anchor (aL, aR, aTL, aTR, aBL, aBR) and its six
  triangle fields (tT, tB, tLT, tRT, tLB, tRB).\<close>

datatype aprop = A_L | A_R | A_TL | A_TR | A_BL | A_BR

datatype tprop = T_T | T_B | T_LT | T_RT | T_LB | T_RB

text \<open>A triangle as the third loop of genTriangles creates it: anchors only.\<close>

record tri0 =
  aL :: aref
  aR :: aref
  aT :: "aref option"
  aB :: "aref option"

text \<open>The finished triangle; \<open>idx\<close> is the field \<open>i\<close>, neighbours are array indices.\<close>

record triangle = tri0 +
  idx :: nat
  tL :: "nat option"
  tR :: "nat option"
  tT :: "nat option"
  tB :: "nat option"
  position :: "real list"
  centerX :: real
  centerY :: real
  globalOffsetX :: real
  globalOffsetY :: real
  globalAngle :: "real option"
  globalAngleChange_tL :: "real option"
  globalAngleChange_tR :: "real option"
  globalAngleChange_tB :: "real option"
  globalAngleChange_tT :: "real option"

definition isPointingUp :: "'a tri0_scheme \<Rightarrow> bool" where
  "isPointingUp tri = (aT tri \<noteq> None)"

text \<open>triangleBackProp selects the field tB of an up-pointing triangle, tT otherwise.\<close>

definition triangleBack :: "triangle \<Rightarrow> nat option" where
  "triangleBack tri = (if isPointingUp tri then tB tri else tT tri)"

subsection \<open>First loop: anchor coordinates\<close>

definition colInc :: "real \<Rightarrow> real" where
  "colInc distance = cos (pi / 3) * distance"

definition rowInc :: "real \<Rightarrow> real" where
  "rowInc distance = sin (pi / 3) * distance"

definition anchorX :: "real \<Rightarrow> aref \<Rightarrow> real" where
  "anchorX distance a =
     (case a of (row, col) \<Rightarrow> of_int col * distance + of_int (row mod 2) * colInc distance)"

definition anchorY :: "real \<Rightarrow> aref \<Rightarrow> real" where
  "anchorY distance a = (case a of (row, col) \<Rightarrow> of_int row * rowInc distance)"

text \<open>\<open>anchors[row][col]\<close> of a grid with the given numbers of rows and columns: the
  anchor's address, or None where the array read gives undefined.\<close>

definition anchorAt :: "int \<Rightarrow> int \<Rightarrow> int \<Rightarrow> int \<Rightarrow> aref option" where
  "anchorAt rows cols row col =
     (if 0 \<le> row \<and> row < rows \<and> 0 \<le> col \<and> col < cols then Some (row, col) else None)"

definition gridRefs :: "int \<Rightarrow> int \<Rightarrow> aref list" where
  "gridRefs rows cols =
     concat (map (\<lambda>row. map (\<lambda>col. (row, col)) [0..cols - 1]) [0..rows - 1])"

subsection \<open>Second loop: anchor neighbours\<close>

definition colAnchorLeft :: "int \<Rightarrow> int \<Rightarrow> int" where
  "colAnchorLeft row col = (if row mod 2 = 0 then col - 1 else col)"

definition colAnchorRight :: "int \<Rightarrow> int \<Rightarrow> int" where
  "colAnchorRight row col = (if row mod 2 = 0 then col else col + 1)"

fun link :: "int \<Rightarrow> int \<Rightarrow> aref \<Rightarrow> aprop \<Rightarrow> aref option" where
  "link rows cols (row, col) A_L =
     (if col > 0 then anchorAt rows cols row (col - 1) else None)"
| "link rows cols (row, col) A_R =
     (if col < cols - 1 then anchorAt rows cols row (col + 1) else None)"
| "link rows cols (row, col) A_BL =
     (if row > 0 \<and> colAnchorLeft row col \<ge> 0
      then anchorAt rows cols (row - 1) (colAnchorLeft row col) else None)"
| "link rows cols (row, col) A_BR =
     (if row > 0 \<and> colAnchorRight row col < cols
      then anchorAt rows cols (row - 1) (colAnchorRight row col) else None)"
| "link rows cols (row, col) A_TL =
     (if row < rows - 1 \<and> colAnchorLeft row col \<ge> 0
      then anchorAt rows cols (row + 1) (colAnchorLeft row col) else None)"
| "link rows cols (row, col) A_TR =
     (if row < rows - 1 \<and> colAnchorRight row col < cols
      then anchorAt rows cols (row + 1) (colAnchorRight row col) else None)"

subsection \<open>Third loop: triangles and the anchors' triangle fields\<close>

text \<open>The state of the third loop: the triangle field of every anchor (a store from
  anchor and field to the triangle's index) and the \<open>triangles\<close> array.\<close>

record build =
  slots :: "aref \<times> tprop \<Rightarrow> nat option"
  tris :: "tri0 list"

text \<open>One line of the loop body per equation: the triangle the line would create at
  anchor \<open>a\<close> and the three anchor fields its chained assignment writes, or None when one
  of the two neighbours the line tests is missing.\<close>

fun slotSpec :: "int \<Rightarrow> int \<Rightarrow> aref \<Rightarrow> tprop \<Rightarrow> (tri0 \<times> (aref \<times> tprop) list) option" where
  "slotSpec rows cols a T_T =
     (case (link rows cols a A_TL, link rows cols a A_TR) of
        (Some nTL, Some nTR) \<Rightarrow>
          Some (\<lparr>aL = nTL, aR = nTR, aT = None, aB = Some a\<rparr>, [(a, T_T), (nTL, T_RB), (nTR, T_LB)])
      | _ \<Rightarrow> None)"
| "slotSpec rows cols a T_B =
     (case (link rows cols a A_BL, link rows cols a A_BR) of
        (Some nBL, Some nBR) \<Rightarrow>
          Some (\<lparr>aL = nBL, aR = nBR, aT = Some a, aB = None\<rparr>, [(a, T_B), (nBL, T_RT), (nBR, T_LT)])
      | _ \<Rightarrow> None)"
| "slotSpec rows cols a T_LT =
     (case (link rows cols a A_L, link rows cols a A_TL) of
        (Some nL, Some nTL) \<Rightarrow>
          Some (\<lparr>aL = nL, aR = a, aT = Some nTL, aB = None\<rparr>, [(a, T_LT), (nL, T_RT), (nTL, T_B)])
      | _ \<Rightarrow> None)"
| "slotSpec rows cols a T_RT =
     (case (link rows cols a A_R, link rows cols a A_TR) of
        (Some nR, Some nTR) \<Rightarrow>
          Some (\<lparr>aL = a, aR = nR, aT = Some nTR, aB = None\<rparr>, [(a, T_RT), (nR, T_LT), (nTR, T_B)])
      | _ \<Rightarrow> None)"
| "slotSpec rows cols a T_LB =
     (case (link rows cols a A_L, link rows cols a A_BL) of
        (Some nL, Some nBL) \<Rightarrow>
          Some (\<lparr>aL = nL, aR = a, aT = None, aB = Some nBL\<rparr>, [(a, T_LB), (nL, T_RB), (nBL, T_T)])
      | _ \<Rightarrow> None)"
| "slotSpec rows cols a T_RB =
     (case (link rows cols a A_R, link rows cols a A_BR) of
        (Some nR, Some nBR) \<Rightarrow>
          Some (\<lparr>aL = a, aR = nR, aT = None, aB = Some nBR\<rparr>, [(a, T_RB), (nR, T_LB), (nBR, T_T)])
      | _ \<Rightarrow> None)"

text \<open>\<open>triangles.push(a.f = b.g = c.h = {...})\<close>: the new object gets the next index.\<close>

definition pushTri :: "build \<Rightarrow> tri0 \<Rightarrow> (aref \<times> tprop) list \<Rightarrow> build" where
  "pushTri b t ss =
     \<lparr>slots = (\<lambda>s. if s \<in> set ss then Some (length (tris b)) else slots b s),
      tris = tris b @ [t]\<rparr>"

definition trySlot :: "int \<Rightarrow> int \<Rightarrow> aref \<Rightarrow> build \<Rightarrow> tprop \<Rightarrow> build" where
  "trySlot rows cols a b k =
     (case slotSpec rows cols a k of
        None \<Rightarrow> b
      | Some (t, ss) \<Rightarrow> if slots b (a, k) = None then pushTri b t ss else b)"

definition visit :: "int \<Rightarrow> int \<Rightarrow> build \<Rightarrow> aref \<Rightarrow> build" where
  "visit rows cols b a = foldl (trySlot rows cols a) b [T_T, T_B, T_LT, T_RT, T_LB, T_RB]"

definition buildTriangles :: "int \<Rightarrow> int \<Rightarrow> build" where
  "buildTriangles rows cols =
     foldl (visit rows cols) \<lparr>slots = (\<lambda>s. None), tris = []\<rparr> (gridRefs rows cols)"

subsection \<open>Fourth loop: indices, triangle neighbours, vertex positions\<close>

definition anchorPadX :: "real \<Rightarrow> real" where
  "anchorPadX padding = cos (pi / 6) * padding"

definition anchorPadY :: "real \<Rightarrow> real" where
  "anchorPadY padding = sin (pi / 6) * padding"

text \<open>\<open>tri.aT?.x ?? 0\<close> and its siblings: the coordinate of an optional anchor.\<close>

definition optX :: "real \<Rightarrow> aref option \<Rightarrow> real" where
  "optX distance oa = (case oa of None \<Rightarrow> 0 | Some a \<Rightarrow> anchorX distance a)"

definition optY :: "real \<Rightarrow> aref option \<Rightarrow> real" where
  "optY distance oa = (case oa of None \<Rightarrow> 0 | Some a \<Rightarrow> anchorY distance a)"

definition triPosition :: "real \<Rightarrow> real \<Rightarrow> tri0 \<Rightarrow> real list" where
  "triPosition distance padding tri =
     (if isPointingUp tri then
        [optX distance (aT tri), optY distance (aT tri) - padding, 0,
         anchorX distance (aR tri) - anchorPadX padding,
         anchorY distance (aR tri) + anchorPadY padding, 0,
         anchorX distance (aL tri) + anchorPadX padding,
         anchorY distance (aL tri) + anchorPadY padding, 0]
      else
        [optX distance (aB tri), optY distance (aB tri) + padding, 0,
         anchorX distance (aL tri) + anchorPadX padding,
         anchorY distance (aL tri) - anchorPadY padding, 0,
         anchorX distance (aR tri) - anchorPadX padding,
         anchorY distance (aR tri) - anchorPadY padding, 0])"

text \<open>The body of \<open>triangles.forEach((tri, i) => ...)\<close>; the anchors' triangle fields are
  read from the store the third loop left.\<close>

definition finishTri ::
  "real \<Rightarrow> real \<Rightarrow> real \<Rightarrow> real \<Rightarrow> (aref \<times> tprop \<Rightarrow> nat option) \<Rightarrow> nat \<Rightarrow> tri0 \<Rightarrow> triangle" where
  "finishTri distance padding globalCenterX globalCenterY sl n tri =
     (let up = isPointingUp tri;
          pos = triPosition distance padding tri;
          cx = (pos ! 0 + pos ! 3 + pos ! 6) / 3;
          cy = (pos ! 1 + pos ! 4 + pos ! 7) / 3
      in \<lparr>aL = aL tri, aR = aR tri, aT = aT tri, aB = aB tri,
          idx = n,
          tL = (if up then sl (aL tri, T_T) else sl (aL tri, T_B)),
          tR = (if up then sl (aR tri, T_T) else sl (aR tri, T_B)),
          tT = (if up then None else sl (aR tri, T_LT)),
          tB = (if up then sl (aR tri, T_LB) else None),
          position = pos,
          centerX = cx,
          centerY = cy,
          globalOffsetX = cx - globalCenterX,
          globalOffsetY = cy - globalCenterY,
          globalAngle = None,
          globalAngleChange_tL = None,
          globalAngleChange_tR = None,
          globalAngleChange_tB = None,
          globalAngleChange_tT = None\<rparr>)"

text \<open>An anchor object as genTriangles returns it: coordinates, the six neighbour fields
  and the six triangle fields.\<close>

record anchor =
  ax :: real
  ay :: real
  alink :: "aprop \<Rightarrow> aref option"
  atri :: "tprop \<Rightarrow> nat option"

record lattice =
  triangles :: "triangle list"
  anchors :: "anchor list list"

definition anchorGrid :: "int \<Rightarrow> int \<Rightarrow> real \<Rightarrow> (aref \<times> tprop \<Rightarrow> nat option) \<Rightarrow> anchor list list" where
  "anchorGrid rows cols distance sl =
     map (\<lambda>row. map (\<lambda>col.
            \<lparr>ax = anchorX distance (row, col), ay = anchorY distance (row, col),
             alink = link rows cols (row, col), atri = (\<lambda>k. sl ((row, col), k))\<rparr>)
          [0..cols - 1]) [0..rows - 1]"

text \<open>genTriangles. The only statement that can throw is the read of
  \<open>anchors[rows - 1][cols - 1].x\<close> for the global centre: a property read on undefined
  when the grid has no last row or that row has no last anchor.\<close>

definition genTriangles :: "int \<Rightarrow> int \<Rightarrow> real \<Rightarrow> real \<Rightarrow> error + lattice" where
  "genTriangles rows cols distance padding =
     (let b = buildTriangles rows cols in
      case anchorAt rows cols (rows - 1) (cols - 1) of
        None \<Rightarrow> Inl TypeError
      | Some far \<Rightarrow>
          let globalCenterX = anchorX distance far / 2;
              globalCenterY = anchorY distance far / 2
          in Inr \<lparr>triangles =
                    map (\<lambda>n. finishTri distance padding globalCenterX globalCenterY
                               (slots b) n (tris b ! n)) [0..<length (tris b)],
                  anchors = anchorGrid rows cols distance (slots b)\<rparr>)"

subsection \<open>addGlobalAngleChanges\<close>

text \<open>Math.atan2 on reals (the signed zeros of IEEE arithmetic are not distinguished).\<close>

definition atan2 :: "real \<Rightarrow> real \<Rightarrow> real" where
  "atan2 y x =
     (if x > 0 then arctan (y / x)
      else if x < 0 then (if y \<ge> 0 then arctan (y / x) + pi else arctan (y / x) - pi)
      else if y > 0 then pi / 2
      else if y < 0 then - (pi / 2)
      else 0)"

text \<open>The bearing of triangle \<open>n\<close> of the array from \<open>tri\<close>, less \<open>tri\<close>'s global angle.\<close>

definition angleChange :: "triangle list \<Rightarrow> triangle \<Rightarrow> real \<Rightarrow> nat \<Rightarrow> real" where
  "angleChange ts tri ga n =
     atan2 (centerY (ts ! n) - centerY tri) (centerX (ts ! n) - centerX tri) - ga"

definition addAngles :: "triangle list \<Rightarrow> triangle \<Rightarrow> triangle" where
  "addAngles ts tri =
     (let ga = atan2 (globalOffsetY tri) (globalOffsetX tri) in
      tri\<lparr>globalAngle := Some ga,
          globalAngleChange_tT :=
            (case tT tri of None \<Rightarrow> globalAngleChange_tT tri | Some n \<Rightarrow> Some (angleChange ts tri ga n)),
          globalAngleChange_tB :=
            (case tB tri of None \<Rightarrow> globalAngleChange_tB tri | Some n \<Rightarrow> Some (angleChange ts tri ga n)),
          globalAngleChange_tL :=
            (case tL tri of None \<Rightarrow> globalAngleChange_tL tri | Some n \<Rightarrow> Some (angleChange ts tri ga n)),
          globalAngleChange_tR :=
            (case tR tri of None \<Rightarrow> globalAngleChange_tR tri | Some n \<Rightarrow> Some (angleChange ts tri ga n))\<rparr>)"

text \<open>The loop writes only angle fields and reads only centres and offsets, so every
  iteration sees the centres genTriangles computed.\<close>

definition addGlobalAngleChanges :: "triangle list \<Rightarrow> triangle list" where
  "addGlobalAngleChanges ts = map (addAngles ts) ts"

subsection \<open>AnimatedTriangle\<close>

text \<open>
  The class Color comes from the library three, which is not part of the repository. Its
  operations are taken as parameters: \<open>offsetHSL\<close> and \<open>setRGB\<close> return the colour the
  method leaves in the object, \<open>lightness\<close> is the \<open>l\<close> that \<open>getHSL\<close> reports.
  Colour objects are shared between AnimatedTriangle objects (preAnimationSetup gives every
  head the same one), so an AnimatedTriangle holds the address of its colour in a store.
\<close>

record 'c colorLib =
  offsetHSL :: "'c \<Rightarrow> real \<Rightarrow> real \<Rightarrow> real \<Rightarrow> 'c"
  setRGB :: "'c \<Rightarrow> real \<Rightarrow> real \<Rightarrow> real \<Rightarrow> 'c"
  lightness :: "'c \<Rightarrow> real"

definition fadeInc :: real where
  "fadeInc = 0.001"

record animatedTriangle =
  triangle :: nat
  index :: nat
  color :: nat

definition isFadedColor :: "'c colorLib \<Rightarrow> 'c \<Rightarrow> bool" where
  "isFadedColor lib c = (lightness lib c < fadeInc)"

definition animateColor :: "'c colorLib \<Rightarrow> 'c \<Rightarrow> 'c" where
  "animateColor lib c =
     (let c1 = offsetHSL lib c 0 0 (- fadeInc)
      in if isFadedColor lib c1 then setRGB lib c1 0 0 0 else c1)"

text \<open>The class declares a constructor, animate and isFaded. A call of any other method,
  such as \<open>anim.getPositions()\<close>, calls undefined and throws a TypeError.\<close>

definition getPositions :: "animatedTriangle \<Rightarrow> error + real list" where
  "getPositions anim = Inl TypeError"

section \<open>The animation tick (animate in the main module)\<close>

text \<open>
  The module's variables. Arrays indexed by the head number are maps, the Map
  \<open>fadingTriangles\<close> is a list of entries in insertion order. The typed arrays handed to
  the renderer, the camera and the scheduling of the next frame are left out: no statement
  that reads them decides what a head does, and the writes into the typed arrays are in
  range whenever the index of an AnimatedTriangle is that of a triangle of the array, as
  it is for every one the module creates. preAnimationSetup only fills \<open>animHeads\<close>; the
  tick is modelled from any values of the variables.
\<close>

record 'c state =
  animHeads :: "nat \<rightharpoonup> animatedTriangle"
  animPrevHeads :: "nat \<rightharpoonup> animatedTriangle"
  fadingTriangles :: "(nat \<times> animatedTriangle) list"
  animColor :: nat
  colorStore :: "nat \<Rightarrow> 'c"
  nextColor :: nat

definition heads :: nat where
  "heads = 9"

text \<open>The triangle object an index stands for; None is undefined (preAnimationSetup
  stores \<open>triangles[0]\<close> of an empty array), and a property read on it throws.\<close>

definition triAt :: "triangle list \<Rightarrow> nat \<Rightarrow> triangle option" where
  "triAt ts n = (if n < length ts then Some (ts ! n) else None)"

definition fadingHas :: "(nat \<times> animatedTriangle) list \<Rightarrow> nat \<Rightarrow> bool" where
  "fadingHas fading n = (n \<in> fst ` set fading)"

text \<open>Map.set: an existing key keeps its place, a new key goes to the end.\<close>

fun fadingSet :: "(nat \<times> animatedTriangle) list \<Rightarrow> nat \<Rightarrow> animatedTriangle \<Rightarrow> (nat \<times> animatedTriangle) list" where
  "fadingSet [] k v = [(k, v)]"
| "fadingSet ((k', v') # es) k v = (if k' = k then (k, v) # es else (k', v') # fadingSet es k v)"

definition fadingDelete :: "(nat \<times> animatedTriangle) list \<Rightarrow> nat \<Rightarrow> (nat \<times> animatedTriangle) list" where
  "fadingDelete fading k = filter (\<lambda>e. fst e \<noteq> k) fading"

datatype nprop = P_tL | P_tR | P_tB | P_tT

text \<open>An element of \<open>nextProps\<close>; \<open>propKey\<close> is its field \<open>prop\<close>.\<close>

record nextProp =
  propKey :: nprop
  tri :: "nat option"
  favour :: real

definition triangleBackProp :: "triangle \<Rightarrow> nprop" where
  "triangleBackProp t = (if isPointingUp t then P_tB else P_tT)"

definition triProp :: "triangle \<Rightarrow> nprop \<Rightarrow> nat option" where
  "triProp t p = (case p of P_tL \<Rightarrow> tL t | P_tR \<Rightarrow> tR t | P_tB \<Rightarrow> tB t | P_tT \<Rightarrow> tT t)"

text \<open>\<open>baseFavour\<close>; \<open>prevTri\<close> is \<open>animPrevHeads[h]?.triangle\<close>.\<close>

definition baseFavour :: "nat option \<Rightarrow> nat option \<Rightarrow> (nat \<times> animatedTriangle) list \<Rightarrow> real" where
  "baseFavour neighborTri prevTri fading =
     (case neighborTri of
        None \<Rightarrow> 0
      | Some n \<Rightarrow> if Some n = prevTri then 1 else if fadingHas fading n then 2 else 20)"

definition nextProps :: "triangle \<Rightarrow> nat option \<Rightarrow> (nat \<times> animatedTriangle) list \<Rightarrow> nextProp list" where
  "nextProps t prevTri fading =
     map (\<lambda>p. \<lparr>propKey = p, tri = triProp t p, favour = baseFavour (triProp t p) prevTri fading\<rparr>)
       [P_tL, P_tR, triangleBackProp t]"

definition totalFavour :: "nextProp list \<Rightarrow> real" where
  "totalFavour nps = foldl (\<lambda>sum np. sum + favour np) 0 nps"

text \<open>The forEach that overwrites every favour by the running sum.\<close>

fun cumulate :: "real \<Rightarrow> nextProp list \<Rightarrow> nextProp list" where
  "cumulate cumulativeFavour [] = []"
| "cumulate cumulativeFavour (np # nps) =
     np\<lparr>favour := cumulativeFavour + favour np\<rparr> # cumulate (cumulativeFavour + favour np) nps"

definition selectProp :: "nextProp list \<Rightarrow> real \<Rightarrow> nextProp option" where
  "selectProp nps rand = find (\<lambda>np. rand < favour np) (cumulate 0 nps)"

text \<open>\<open>selectedProp?.tri\<close>, for the value \<open>random\<close> that Math.random returned.\<close>

definition nextNeighbor :: "nextProp list \<Rightarrow> real \<Rightarrow> nat option" where
  "nextNeighbor nps random =
     (case selectProp nps (random * totalFavour nps) of None \<Rightarrow> None | Some np \<Rightarrow> tri np)"

text \<open>One iteration of the loop over the heads. A thrown error comes with the variables as
  the statements before the throw left them.\<close>

definition headStep ::
  "'c colorLib \<Rightarrow> triangle list \<Rightarrow> (nat \<Rightarrow> real) \<Rightarrow> 'c state \<Rightarrow> nat \<Rightarrow> (error \<times> 'c state) + 'c state" where
  "headStep lib ts random st h =
     (case animHeads st h of
        None \<Rightarrow> Inl (TypeError, st)
      | Some animatedTriangle \<Rightarrow>
          (case triAt ts (triangle animatedTriangle) of
             None \<Rightarrow> Inl (TypeError, st)
           | Some t \<Rightarrow>
               let nps = nextProps t (map_option triangle (animPrevHeads st h)) (fadingTriangles st);
                   st1 = st\<lparr>animPrevHeads := (animPrevHeads st)(h \<mapsto> animatedTriangle)\<rparr>
               in (case nextNeighbor nps (random h) of
                     None \<Rightarrow> Inl (TypeError, st1)
                   | Some n \<Rightarrow>
                       (case triAt ts n of
                          None \<Rightarrow> Inl (TypeError, st1)
                        | Some next \<Rightarrow>
                            let c = offsetHSL lib (colorStore st1 (animColor st1)) (0.01 * real h) 0 0;
                                newHead = \<lparr>triangle = n, index = idx next, color = nextColor st1\<rparr>
                            in Inr (st1\<lparr>animHeads := (animHeads st1)(h \<mapsto> newHead),
                                        fadingTriangles :=
                                          fadingSet (fadingTriangles st1) (triangle animatedTriangle) animatedTriangle,
                                        colorStore := (colorStore st1)(nextColor st1 := c),
                                        nextColor := Suc (nextColor st1)\<rparr>)))))"

fun headLoop ::
  "'c colorLib \<Rightarrow> triangle list \<Rightarrow> (nat \<Rightarrow> real) \<Rightarrow> nat list \<Rightarrow> 'c state \<Rightarrow> (error \<times> 'c state) + 'c state" where
  "headLoop lib ts random [] st = Inr st"
| "headLoop lib ts random (h # hs) st =
     (case headStep lib ts random st h of
        Inl e \<Rightarrow> Inl e
      | Inr st' \<Rightarrow> headLoop lib ts random hs st')"

text \<open>The body of \<open>fadingTriangles.forEach((anim, tri) => ...)\<close>.\<close>

definition sweepEntry ::
  "'c colorLib \<Rightarrow> nat \<Rightarrow> animatedTriangle \<Rightarrow> 'c state \<Rightarrow> (error \<times> 'c state) + 'c state" where
  "sweepEntry lib k anim st =
     (let st1 = st\<lparr>colorStore :=
                    (colorStore st)(color anim := animateColor lib (colorStore st (color anim)))\<rparr>
      in case getPositions anim of
           Inl e \<Rightarrow> Inl (e, st1)
         | Inr ps \<Rightarrow>
             Inr (if isFadedColor lib (colorStore st1 (color anim))
                  then st1\<lparr>fadingTriangles := fadingDelete (fadingTriangles st1) k\<rparr>
                  else st1))"

fun sweep ::
  "'c colorLib \<Rightarrow> (nat \<times> animatedTriangle) list \<Rightarrow> 'c state \<Rightarrow> (error \<times> 'c state) + 'c state" where
  "sweep lib [] st = Inr st"
| "sweep lib ((k, anim) # es) st =
     (case sweepEntry lib k anim st of
        Inl e \<Rightarrow> Inl e
      | Inr st' \<Rightarrow> sweep lib es st')"

text \<open>One call of animate: the heads move, the shared colour is replaced by a clone with
  the hue advanced, the fading triangles are swept.\<close>

definition animate ::
  "'c colorLib \<Rightarrow> triangle list \<Rightarrow> (nat \<Rightarrow> real) \<Rightarrow> 'c state \<Rightarrow> (error \<times> 'c state) + 'c state" where
  "animate lib ts random st =
     (case headLoop lib ts random [0..<heads] st of
        Inl e \<Rightarrow> Inl e
      | Inr st1 \<Rightarrow>
          let st2 = st1\<lparr>animColor := nextColor st1,
                        colorStore := (colorStore st1)
                          (nextColor st1 := offsetHSL lib (colorStore st1 (animColor st1)) 0.0002 0 0),
                        nextColor := Suc (nextColor st1)\<rparr>
          in sweep lib (fadingTriangles st2) st2)"

section \<open>Auxiliary notions for the proofs\<close>

text \<open>An anchor address inside the grid.\<close>


definition inGrid :: "int \<Rightarrow> int \<Rightarrow> aref \<Rightarrow> bool" where
  "inGrid rows cols a = (0 \<le> fst a \<and> fst a < rows \<and> 0 \<le> snd a \<and> snd a < cols)"

text \<open>The three anchor fields that hold a given triangle.\<close>

definition triSlots :: "tri0 \<Rightarrow> (aref \<times> tprop) set" where
  "triSlots t =
     (case aT t of
        Some p \<Rightarrow> {(p, T_B), (aL t, T_RT), (aR t, T_LT)}
      | None \<Rightarrow> (case aB t of Some p \<Rightarrow> {(p, T_T)} | None \<Rightarrow> {}) \<union> {(aL t, T_RB), (aR t, T_LB)})"


text \<open>The invariant of the third loop: an anchor field that is set holds the index of
  the triangle its line of the loop body describes, and every triangle of the array is
  held by its three anchor fields.\<close>

definition buildInv :: "int \<Rightarrow> int \<Rightarrow> build \<Rightarrow> bool" where
  "buildInv rows cols b =
     ((\<forall>s n. slots b s = Some n \<longrightarrow>
          n < length (tris b) \<and> inGrid rows cols (fst s) \<and>
          (\<exists>ss. slotSpec rows cols (fst s) (snd s) = Some (tris b ! n, ss))) \<and>
      (\<forall>n < length (tris b). \<forall>s \<in> triSlots (tris b ! n). slots b s = Some n))"


text \<open>The running cumulative weight of candidate \<open>k\<close>: the sum of the weights of the
  candidates up to and including it, in list order.\<close>

definition cumulativeWeight :: "nextProp list \<Rightarrow> nat \<Rightarrow> real" where
  "cumulativeWeight nps k = sum_list (map favour (take (Suc k) nps))"


text \<open>Example data for instances of the theorems: an up-pointing triangle with a left and
  a back neighbour, and the variables of the main module with one previous head and one
  fading triangle.\<close>

definition exTriangle :: triangle where
  "exTriangle =
     \<lparr>aL = (0, 0), aR = (0, 1), aT = Some (1, 0), aB = None,
      idx = 0, tL = Some 1, tR = None, tT = None, tB = Some 2,
      position = [], centerX = 0, centerY = 0, globalOffsetX = 0, globalOffsetY = 0,
      globalAngle = None, globalAngleChange_tL = None, globalAngleChange_tR = None,
      globalAngleChange_tB = None, globalAngleChange_tT = None\<rparr>"

definition exState :: "unit state" where
  "exState =
     \<lparr>animHeads = [0 \<mapsto> \<lparr>triangle = 0, index = 0, color = 0\<rparr>],
      animPrevHeads = [0 \<mapsto> \<lparr>triangle = 1, index = 1, color = 0\<rparr>],
      fadingTriangles = [(1, \<lparr>triangle = 1, index = 1, color = 0\<rparr>)],
      animColor = 0, colorStore = (\<lambda>n. ()), nextColor = 1\<rparr>"

text \<open>The lattice of 3 rows and 4 columns with distance 1 and no padding.\<close>

definition exLattice :: lattice where
  "exLattice = projr (genTriangles 3 4 1 0)"

section \<open>The third loop keeps its invariant and fills every slot\<close>

lemma link_inGrid: "link rows cols a d = Some b \<Longrightarrow> inGrid rows cols b"
  by (cases a; cases d) (auto simp: anchorAt_def inGrid_def split: if_splits)

lemma slotSpec_slots: "slotSpec rows cols a k = Some (t, ss) \<Longrightarrow> set ss = triSlots t \<and> (a, k) \<in> set ss"
  by (cases k) (auto simp: triSlots_def split: option.splits)

lemma slotSpec_inGrid:
  "inGrid rows cols a \<Longrightarrow> slotSpec rows cols a k = Some (t, ss) \<Longrightarrow> s \<in> set ss \<Longrightarrow> inGrid rows cols (fst s)"
  by (cases a; cases k) (auto simp: inGrid_def anchorAt_def split: option.splits if_splits)

lemma par: "(row::int) mod 2 = 0 \<Longrightarrow> (row + 1) mod 2 \<noteq> 0" "(row::int) mod 2 \<noteq> 0 \<Longrightarrow> (row + 1) mod 2 = 0"
 "(row::int) mod 2 = 0 \<Longrightarrow> (row - 1) mod 2 \<noteq> 0" "(row::int) mod 2 \<noteq> 0 \<Longrightarrow> (row - 1) mod 2 = 0"
  by presburger+

lemma slotSpec_coherent:
  assumes "inGrid rows cols a" "slotSpec rows cols a k = Some (t, ss)" "(a', k') \<in> set ss"
  shows "\<exists>ss'. slotSpec rows cols a' k' = Some (t, ss')"
  using assms
  by (cases a; cases k) (auto simp: inGrid_def anchorAt_def colAnchorLeft_def colAnchorRight_def par split: option.splits if_splits)

lemma buildInv_slot:
  "buildInv rows cols b \<Longrightarrow> slots b s = Some n \<Longrightarrow>
     n < length (tris b) \<and> inGrid rows cols (fst s) \<and>
     (\<exists>ss. slotSpec rows cols (fst s) (snd s) = Some (tris b ! n, ss))"
proof -
  assume inv: "buildInv rows cols b" and sl: "slots b s = Some n"
  from inv have "\<forall>s n. slots b s = Some n \<longrightarrow>
          n < length (tris b) \<and> inGrid rows cols (fst s) \<and>
          (\<exists>ss. slotSpec rows cols (fst s) (snd s) = Some (tris b ! n, ss))"
    unfolding buildInv_def by (rule conjunct1)
  from this[rule_format, OF sl] show ?thesis .
qed

lemma buildInv_tri:
  "buildInv rows cols b \<Longrightarrow> n < length (tris b) \<Longrightarrow> s \<in> triSlots (tris b ! n) \<Longrightarrow> slots b s = Some n"
  unfolding buildInv_def by blast

lemma slots_pushTri:
  "slots (pushTri b t ss) s = (if s \<in> set ss then Some (length (tris b)) else slots b s)"
  by (simp add: pushTri_def)

lemma tris_pushTri: "tris (pushTri b t ss) = tris b @ [t]"
  by (simp add: pushTri_def)

lemma buildInv_pushTri:
  assumes inv: "buildInv rows cols b" and a: "inGrid rows cols a"
    and spec: "slotSpec rows cols a k = Some (t, ss)" and free: "slots b (a, k) = None"
  shows "buildInv rows cols (pushTri b t ss)"
proof -
  have ss: "set ss = triSlots t" and ak: "(a, k) \<in> set ss"
    using slotSpec_slots[OF spec] by auto
  have old: "s \<notin> set ss" if n: "n < length (tris b)" and s: "s \<in> triSlots (tris b ! n)" for s n
  proof
    assume s': "s \<in> set ss"
    have sl: "slots b s = Some n" by (rule buildInv_tri[OF inv n s])
    from buildInv_slot[OF inv sl]
    obtain ss0 where 1: "slotSpec rows cols (fst s) (snd s) = Some (tris b ! n, ss0)" by blast
    from s' have "(fst s, snd s) \<in> set ss" by simp
    from slotSpec_coherent[OF a spec this]
    obtain ss' where 2: "slotSpec rows cols (fst s) (snd s) = Some (t, ss')" by blast
    from 1 2 have "tris b ! n = t" by simp
    with ss ak have "(a, k) \<in> triSlots (tris b ! n)" by simp
    from buildInv_tri[OF inv n this] free show False by simp
  qed
  have new1: "n < length (tris (pushTri b t ss)) \<and> inGrid rows cols (fst s) \<and>
          (\<exists>ss'. slotSpec rows cols (fst s) (snd s) = Some (tris (pushTri b t ss) ! n, ss'))"
    if sl: "slots (pushTri b t ss) s = Some n" for s n
  proof (cases "s \<in> set ss")
    case True
    then have n: "n = length (tris b)" using sl by (simp add: slots_pushTri)
    from True have "(fst s, snd s) \<in> set ss" by simp
    from slotSpec_coherent[OF a spec this] slotSpec_inGrid[OF a spec True] n
    show ?thesis by (simp add: tris_pushTri)
  next
    case False
    then have "slots b s = Some n" using sl by (simp add: slots_pushTri)
    from buildInv_slot[OF inv this] show ?thesis by (simp add: tris_pushTri nth_append)
  qed
  have new2: "slots (pushTri b t ss) s = Some n"
    if n: "n < length (tris (pushTri b t ss))" and s: "s \<in> triSlots (tris (pushTri b t ss) ! n)" for s n
  proof (cases "n < length (tris b)")
    case True
    with s have s': "s \<in> triSlots (tris b ! n)" by (simp add: tris_pushTri nth_append)
    from old[OF True s'] buildInv_tri[OF inv True s'] show ?thesis by (simp add: slots_pushTri)
  next
    case False
    with n have "n = length (tris b)" by (simp add: tris_pushTri)
    with s ss show ?thesis by (simp add: slots_pushTri tris_pushTri)
  qed
  show ?thesis
    unfolding buildInv_def using new1 new2 by blast
qed

lemma buildInv_trySlot:
  "buildInv rows cols b \<Longrightarrow> inGrid rows cols a \<Longrightarrow> buildInv rows cols (trySlot rows cols a b k)"
  by (auto simp: trySlot_def buildInv_pushTri split: option.splits)

lemma buildInv_visit:
  "buildInv rows cols b \<Longrightarrow> inGrid rows cols a \<Longrightarrow> buildInv rows cols (visit rows cols b a)"
  by (simp add: visit_def buildInv_trySlot)

lemma set_gridRefs: "set (gridRefs rows cols) = {a. inGrid rows cols a}"
  by (auto simp: gridRefs_def inGrid_def)

lemma buildInv_foldl:
  "buildInv rows cols b \<Longrightarrow> \<forall>a \<in> set as. inGrid rows cols a \<Longrightarrow> buildInv rows cols (foldl (visit rows cols) b as)"
  by (induction as arbitrary: b) (simp_all add: buildInv_visit)

lemma buildInv_buildTriangles: "buildInv rows cols (buildTriangles rows cols)"
  unfolding buildTriangles_def
  by (rule buildInv_foldl) (simp_all add: buildInv_def set_gridRefs)


lemma slots_trySlot_mono:
  "slots b s \<noteq> None \<Longrightarrow> slots (trySlot rows cols a b k) s \<noteq> None"
  by (auto simp: trySlot_def slots_pushTri split: option.splits)

lemma slots_trySlot_fills:
  "slotSpec rows cols a k \<noteq> None \<Longrightarrow> slots (trySlot rows cols a b k) (a, k) \<noteq> None"
  by (auto simp: trySlot_def slots_pushTri dest: slotSpec_slots split: option.splits)

lemma slots_foldl_trySlot_mono:
  "slots b s \<noteq> None \<Longrightarrow> slots (foldl (trySlot rows cols a) b ks) s \<noteq> None"
  by (induction ks arbitrary: b) (simp_all del: not_None_eq add: slots_trySlot_mono)

lemma slots_foldl_trySlot_fills:
  "k \<in> set ks \<Longrightarrow> slotSpec rows cols a k \<noteq> None \<Longrightarrow>
     slots (foldl (trySlot rows cols a) b ks) (a, k) \<noteq> None"
proof (induction ks arbitrary: b)
  case Nil
  then show ?case by simp
next
  case (Cons k' ks)
  show ?case
  proof (cases "k = k'")
    case True
    with Cons.prems show ?thesis
      by (simp del: not_None_eq add: slots_foldl_trySlot_mono slots_trySlot_fills)
  next
    case False
    with Cons show ?thesis by (simp del: not_None_eq)
  qed
qed

lemma slots_visit_mono: "slots b s \<noteq> None \<Longrightarrow> slots (visit rows cols b a) s \<noteq> None"
  unfolding visit_def by (rule slots_foldl_trySlot_mono)

lemma slots_visit_fills:
  "slotSpec rows cols a k \<noteq> None \<Longrightarrow> slots (visit rows cols b a) (a, k) \<noteq> None"
  unfolding visit_def by (rule slots_foldl_trySlot_fills) (cases k; simp_all)

lemma slots_foldl_visit_mono:
  "slots b s \<noteq> None \<Longrightarrow> slots (foldl (visit rows cols) b as) s \<noteq> None"
  by (induction as arbitrary: b) (simp_all del: not_None_eq add: slots_visit_mono)

lemma slots_foldl_visit_fills:
  "a \<in> set as \<Longrightarrow> slotSpec rows cols a k \<noteq> None \<Longrightarrow>
     slots (foldl (visit rows cols) b as) (a, k) \<noteq> None"
proof (induction as arbitrary: b)
  case Nil
  then show ?case by simp
next
  case (Cons a' as)
  show ?case
  proof (cases "a = a'")
    case True
    with Cons.prems show ?thesis
      by (simp del: not_None_eq add: slots_foldl_visit_mono slots_visit_fills)
  next
    case False
    with Cons show ?thesis by (simp del: not_None_eq)
  qed
qed

lemma buildTriangles_fills:
  "inGrid rows cols a \<Longrightarrow> slotSpec rows cols a k \<noteq> None \<Longrightarrow>
     slots (buildTriangles rows cols) (a, k) \<noteq> None"
  unfolding buildTriangles_def by (rule slots_foldl_visit_fills) (simp_all add: set_gridRefs)

lemmas buildTriangles_slot = buildInv_slot[OF buildInv_buildTriangles]
lemmas buildTriangles_tri = buildInv_tri[OF buildInv_buildTriangles]

lemma buildTriangles_tri_spec:
  assumes "n < length (tris (buildTriangles rows cols))"
    and "(a, k) \<in> triSlots (tris (buildTriangles rows cols) ! n)"
  shows "slots (buildTriangles rows cols) (a, k) = Some n \<and> inGrid rows cols a \<and>
     (\<exists>ss. slotSpec rows cols a k = Some (tris (buildTriangles rows cols) ! n, ss))"
  using buildTriangles_slot[OF buildTriangles_tri[OF assms]] buildTriangles_tri[OF assms] by simp


section \<open>Favour weights\<close>

lemma baseFavour_cases:
  "baseFavour nt (map_option triangle po) fading =
     (case nt of
        None \<Rightarrow> 0
      | Some n \<Rightarrow>
          if \<exists>p. po = Some p \<and> triangle p = n then 1
          else if n \<in> fst ` set fading then 2
          else 20)"
  by (cases nt; cases po) (auto simp: baseFavour_def fadingHas_def)

lemma triProp_back: "triProp t (triangleBackProp t) = triangleBack t"
  by (simp add: triProp_def triangleBackProp_def triangleBack_def)

text \<open>
  C2. For every head \<open>h\<close> on a triangle \<open>t\<close>, the tick builds exactly three candidates,
  in this order: the left slot tL, the right slot tR and the back slot (tB of an
  up-pointing triangle, tT of a down-pointing one). Each candidate carries the neighbour
  in its slot, and the favour of each is 0 if the slot is undefined, 1 if the neighbour is
  the triangle of head \<open>h\<close>'s previous AnimatedTriangle, 2 if it is (not that one and) a
  key of the fading set, and 20 in every other case.
\<close>

theorem favour_weight:
  "map propKey (nextProps t (map_option triangle (animPrevHeads st h)) (fadingTriangles st))
     = [P_tL, P_tR, triangleBackProp t] \<and>
   map tri (nextProps t (map_option triangle (animPrevHeads st h)) (fadingTriangles st))
     = [tL t, tR t, triangleBack t] \<and>
   map favour (nextProps t (map_option triangle (animPrevHeads st h)) (fadingTriangles st))
     = map (\<lambda>neighborTri.
              case neighborTri of
                None \<Rightarrow> 0
              | Some n \<Rightarrow>
                  if \<exists>p. animPrevHeads st h = Some p \<and> triangle p = n then 1
                  else if n \<in> fst ` set (fadingTriangles st) then 2
                  else 20)
         [tL t, tR t, triangleBack t]"
  unfolding nextProps_def baseFavour_cases
  by (simp add: triProp_back) (simp add: triProp_def)

theorem favour_weight_witness:
  "map propKey (nextProps exTriangle (map_option triangle (animPrevHeads exState 0)) (fadingTriangles exState))
     = [P_tL, P_tR, P_tB] \<and>
   map tri (nextProps exTriangle (map_option triangle (animPrevHeads exState 0)) (fadingTriangles exState))
     = [Some 1, None, Some 2] \<and>
   map favour (nextProps exTriangle (map_option triangle (animPrevHeads exState 0)) (fadingTriangles exState))
     = [1, 0, 20] \<and>
   map favour (nextProps exTriangle (map_option triangle (animPrevHeads exState 1)) (fadingTriangles exState))
     = [2, 0, 20]"
  using favour_weight[of exTriangle exState 0] favour_weight[of exTriangle exState 1]
  by (simp add: exTriangle_def exState_def triangleBackProp_def triangleBack_def isPointingUp_def)

section \<open>Weighted selection\<close>

lemma totalFavour_sum_aux: "foldl (\<lambda>sum np. sum + favour np) c nps = c + sum_list (map favour nps)"
  by (induction nps arbitrary: c) simp_all

lemma totalFavour_sum: "totalFavour nps = sum_list (map favour nps)"
  by (simp add: totalFavour_def totalFavour_sum_aux)

lemma length_cumulate: "length (cumulate c nps) = length nps"
  by (induction nps arbitrary: c) simp_all

lemma cumulate_nth:
  "k < length nps \<Longrightarrow> cumulate c nps ! k = (nps ! k)\<lparr>favour := c + cumulativeWeight nps k\<rparr>"
proof (induction nps arbitrary: c k)
  case Nil
  then show ?case by simp
next
  case (Cons np nps)
  show ?case
  proof (cases k)
    case 0
    then show ?thesis by (simp add: cumulativeWeight_def)
  next
    case (Suc k')
    with Cons.prems have "k' < length nps" by simp
    from Cons.IH[OF this] Suc show ?thesis by (simp add: cumulativeWeight_def add.assoc)
  qed
qed

lemma cumulativeWeight_last:
  "nps \<noteq> [] \<Longrightarrow> cumulativeWeight nps (length nps - 1) = totalFavour nps"
  by (cases nps rule: rev_cases) (simp_all add: cumulativeWeight_def totalFavour_sum)

lemma cumulativeWeight_step:
  "Suc j < length nps \<Longrightarrow> cumulativeWeight nps (Suc j) = cumulativeWeight nps j + favour (nps ! Suc j)"
  by (simp add: cumulativeWeight_def take_Suc_conv_app_nth[of "Suc j"])

lemma cumulativeWeight_0: "0 < length nps \<Longrightarrow> cumulativeWeight nps 0 = favour (nps ! 0)"
  by (cases nps) (simp_all add: cumulativeWeight_def)

lemma selectProp_Some:
  "selectProp nps r = Some np \<longleftrightarrow>
     (\<exists>k < length nps. np = (nps ! k)\<lparr>favour := cumulativeWeight nps k\<rparr> \<and>
        r < cumulativeWeight nps k \<and> (\<forall>j < k. cumulativeWeight nps j \<le> r))"
  unfolding selectProp_def find_Some_iff length_cumulate
  by (rule ex_cong) (auto simp: cumulate_nth not_less)

lemma first_positive:
  assumes "0 \<le> r" "k < length nps" "r < cumulativeWeight nps k" "\<forall>j < k. cumulativeWeight nps j \<le> r"
  shows "0 < favour (nps ! k)"
proof (cases k)
  case 0
  with assms show ?thesis by (simp add: cumulativeWeight_0)
next
  case (Suc j)
  with assms have "cumulativeWeight nps j \<le> r" "Suc j < length nps" by simp_all
  with assms(3) Suc show ?thesis by (simp add: cumulativeWeight_step)
qed

lemma selectProp_exists:
  assumes "r < totalFavour nps" "0 \<le> r"
  shows "\<exists>np. selectProp nps r = Some np"
proof -
  from assms have ne: "nps \<noteq> []" by (auto simp: totalFavour_def)
  let ?P = "\<lambda>np. r < favour np"
  have "?P (cumulate 0 nps ! (length nps - 1))"
    using ne assms cumulativeWeight_last[OF ne] by (simp add: cumulate_nth)
  moreover have "cumulate 0 nps ! (length nps - 1) \<in> set (cumulate 0 nps)"
    using ne by (simp add: length_cumulate)
  ultimately have "find ?P (cumulate 0 nps) \<noteq> None"
    unfolding find_None_iff by blast
  then show ?thesis by (auto simp: selectProp_def)
qed

text \<open>
  C3. For every list of candidates and every draw value \<open>r \<ge> 0\<close>: if \<open>r\<close> is below the
  total weight, the selection returns the first candidate in list order whose running
  cumulative weight strictly exceeds \<open>r\<close> (the object of that candidate, its favour
  overwritten by the running sum); and whatever the draw value, a selected candidate has a
  positive weight of its own, so a candidate of weight 0 is never selected.
\<close>

theorem weighted_selection:
  assumes "0 \<le> r"
  shows "(r < totalFavour nps \<longrightarrow>
           (\<exists>k < length nps.
              selectProp nps r = Some ((nps ! k)\<lparr>favour := cumulativeWeight nps k\<rparr>) \<and>
              r < cumulativeWeight nps k \<and> (\<forall>j < k. cumulativeWeight nps j \<le> r))) \<and>
         (\<forall>np. selectProp nps r = Some np \<longrightarrow>
           (\<exists>k < length nps. np = (nps ! k)\<lparr>favour := cumulativeWeight nps k\<rparr> \<and> 0 < favour (nps ! k)))"
proof (intro conjI impI allI)
  assume "r < totalFavour nps"
  from selectProp_exists[OF this assms] obtain np where "selectProp nps r = Some np" ..
  then show "\<exists>k < length nps.
              selectProp nps r = Some ((nps ! k)\<lparr>favour := cumulativeWeight nps k\<rparr>) \<and>
              r < cumulativeWeight nps k \<and> (\<forall>j < k. cumulativeWeight nps j \<le> r)"
    using selectProp_Some[of nps r np] by auto
next
  fix np assume "selectProp nps r = Some np"
  then obtain k where "k < length nps" "np = (nps ! k)\<lparr>favour := cumulativeWeight nps k\<rparr>"
    "r < cumulativeWeight nps k" "\<forall>j < k. cumulativeWeight nps j \<le> r"
    unfolding selectProp_Some by blast
  with first_positive[OF assms this(1,3,4)]
  show "\<exists>k < length nps. np = (nps ! k)\<lparr>favour := cumulativeWeight nps k\<rparr> \<and> 0 < favour (nps ! k)"
    by blast
qed

theorem weighted_selection_witness:
  "(0::real) \<le> 20 \<and> 20 < totalFavour (nextProps exTriangle None []) \<and>
   selectProp (nextProps exTriangle None []) 20
     = Some \<lparr>propKey = P_tB, tri = Some 2, favour = 40\<rparr> \<and>
   favour (nextProps exTriangle None [] ! 1) = 0"
  using weighted_selection[of 20 "nextProps exTriangle None []"]
  by (simp add: nextProps_def exTriangle_def triProp_def baseFavour_def fadingHas_def
      triangleBackProp_def isPointingUp_def totalFavour_def selectProp_def)

section \<open>Symmetry of the triangle adjacency\<close>

lemma genTriangles_eq:
  "genTriangles rows cols distance padding =
     (if 1 \<le> rows \<and> 1 \<le> cols then
        Inr \<lparr>triangles =
               map (\<lambda>n. finishTri distance padding
                          (anchorX distance (rows - 1, cols - 1) / 2)
                          (anchorY distance (rows - 1, cols - 1) / 2)
                          (slots (buildTriangles rows cols)) n (tris (buildTriangles rows cols) ! n))
                 [0..<length (tris (buildTriangles rows cols))],
             anchors = anchorGrid rows cols distance (slots (buildTriangles rows cols))\<rparr>
      else Inl TypeError)"
  by (auto simp: genTriangles_def anchorAt_def Let_def)

lemma finishTri_fields:
  "idx (finishTri d p gx gy sl n t) = n"
  "isPointingUp (finishTri d p gx gy sl n t) = isPointingUp t"
  "tL (finishTri d p gx gy sl n t) = (if isPointingUp t then sl (aL t, T_T) else sl (aL t, T_B))"
  "tR (finishTri d p gx gy sl n t) = (if isPointingUp t then sl (aR t, T_T) else sl (aR t, T_B))"
  "triangleBack (finishTri d p gx gy sl n t) =
     (if isPointingUp t then sl (aR t, T_LB) else sl (aR t, T_LT))"
  by (simp_all add: finishTri_def Let_def isPointingUp_def triangleBack_def)

lemma slotSpec_T_T:
  "slotSpec rows cols a T_T = Some (t, ss) \<Longrightarrow>
     link rows cols a A_TL = Some (aL t) \<and> link rows cols a A_TR = Some (aR t) \<and>
     aT t = None \<and> aB t = Some a"
  by (auto split: option.splits)

lemma slotSpec_T_B:
  "slotSpec rows cols a T_B = Some (t, ss) \<Longrightarrow>
     link rows cols a A_BL = Some (aL t) \<and> link rows cols a A_BR = Some (aR t) \<and>
     aT t = Some a \<and> aB t = None"
  by (auto split: option.splits)

lemma slotSpec_T_LT:
  "slotSpec rows cols a T_LT = Some (t, ss) \<Longrightarrow>
     link rows cols a A_L = Some (aL t) \<and> aR t = a \<and>
     link rows cols a A_TL = aT t \<and> aT t \<noteq> None \<and> aB t = None"
  by (auto split: option.splits)

lemma slotSpec_T_RT:
  "slotSpec rows cols a T_RT = Some (t, ss) \<Longrightarrow>
     aL t = a \<and> link rows cols a A_R = Some (aR t) \<and>
     link rows cols a A_TR = aT t \<and> aT t \<noteq> None \<and> aB t = None"
  by (auto split: option.splits)

lemma slotSpec_T_LB:
  "slotSpec rows cols a T_LB = Some (t, ss) \<Longrightarrow>
     link rows cols a A_L = Some (aL t) \<and> aR t = a \<and>
     link rows cols a A_BL = aB t \<and> aB t \<noteq> None \<and> aT t = None"
  by (auto split: option.splits)

lemma slotSpec_T_RB:
  "slotSpec rows cols a T_RB = Some (t, ss) \<Longrightarrow>
     aL t = a \<and> link rows cols a A_R = Some (aR t) \<and>
     link rows cols a A_BR = aB t \<and> aB t \<noteq> None \<and> aT t = None"
  by (auto split: option.splits)

text \<open>What the store says about a triangle of the array and about a slot that is set.\<close>

lemma tri_slot:
  assumes "m < length (tris (buildTriangles rows cols))"
    and "(a, k) \<in> triSlots (tris (buildTriangles rows cols) ! m)"
  obtains ss where "slotSpec rows cols a k = Some (tris (buildTriangles rows cols) ! m, ss)"
    and "slots (buildTriangles rows cols) (a, k) = Some m" and "inGrid rows cols a"
  using buildTriangles_tri_spec[OF assms] by blast

lemma slot_tri:
  assumes "slots (buildTriangles rows cols) (a, k) = Some n"
  obtains ss where "slotSpec rows cols a k = Some (tris (buildTriangles rows cols) ! n, ss)"
    and "n < length (tris (buildTriangles rows cols))"
  using buildTriangles_slot[OF assms] by auto

lemma not_isPointingUp: "(\<not> isPointingUp t) = (aT t = None)"
  by (cases "aT t") (simp_all add: isPointingUp_def)

lemma up_right:
  assumes m: "m < length (tris (buildTriangles rows cols))"
    and up: "isPointingUp (tris (buildTriangles rows cols) ! m)"
    and sl: "slots (buildTriangles rows cols) (aR (tris (buildTriangles rows cols) ! m), T_T) = Some n"
  shows "n < length (tris (buildTriangles rows cols)) \<and>
     \<not> isPointingUp (tris (buildTriangles rows cols) ! n) \<and>
     slots (buildTriangles rows cols) (aL (tris (buildTriangles rows cols) ! n), T_B) = Some m"
proof -
  let ?b = "buildTriangles rows cols"
  let ?t = "tris ?b ! m"
  from up obtain p where p: "aT ?t = Some p" by (auto simp: isPointingUp_def)
  then have ts: "(p, T_B) \<in> triSlots ?t" "(aR ?t, T_LT) \<in> triSlots ?t"
    by (simp_all add: triSlots_def)
  from tri_slot[OF m ts(2)] obtain ss where "slotSpec rows cols (aR ?t) T_LT = Some (?t, ss)" .
  from slotSpec_T_LT[OF this] p have 1: "link rows cols (aR ?t) A_TL = Some p" by simp
  from slot_tri[OF sl] obtain ss' where "slotSpec rows cols (aR ?t) T_T = Some (tris ?b ! n, ss')"
    and n: "n < length (tris ?b)" .
  from slotSpec_T_T[OF this(1)] 1 have 2: "aT (tris ?b ! n) = None" "aL (tris ?b ! n) = p" by simp_all
  from tri_slot[OF m ts(1)] have "slots ?b (p, T_B) = Some m" .
  with 2 n show ?thesis by (simp add: isPointingUp_def)
qed

lemma up_left:
  assumes m: "m < length (tris (buildTriangles rows cols))"
    and up: "isPointingUp (tris (buildTriangles rows cols) ! m)"
    and sl: "slots (buildTriangles rows cols) (aL (tris (buildTriangles rows cols) ! m), T_T) = Some n"
  shows "n < length (tris (buildTriangles rows cols)) \<and>
     \<not> isPointingUp (tris (buildTriangles rows cols) ! n) \<and>
     slots (buildTriangles rows cols) (aR (tris (buildTriangles rows cols) ! n), T_B) = Some m"
proof -
  let ?b = "buildTriangles rows cols"
  let ?t = "tris ?b ! m"
  from up obtain p where p: "aT ?t = Some p" by (auto simp: isPointingUp_def)
  then have ts: "(p, T_B) \<in> triSlots ?t" "(aL ?t, T_RT) \<in> triSlots ?t"
    by (simp_all add: triSlots_def)
  from tri_slot[OF m ts(2)] obtain ss where "slotSpec rows cols (aL ?t) T_RT = Some (?t, ss)" .
  from slotSpec_T_RT[OF this] p have 1: "link rows cols (aL ?t) A_TR = Some p" by simp
  from slot_tri[OF sl] obtain ss' where "slotSpec rows cols (aL ?t) T_T = Some (tris ?b ! n, ss')"
    and n: "n < length (tris ?b)" .
  from slotSpec_T_T[OF this(1)] 1 have 2: "aT (tris ?b ! n) = None" "aR (tris ?b ! n) = p" by simp_all
  from tri_slot[OF m ts(1)] have "slots ?b (p, T_B) = Some m" .
  with 2 n show ?thesis by (simp add: isPointingUp_def)
qed

lemma up_back:
  assumes m: "m < length (tris (buildTriangles rows cols))"
    and up: "isPointingUp (tris (buildTriangles rows cols) ! m)"
    and sl: "slots (buildTriangles rows cols) (aR (tris (buildTriangles rows cols) ! m), T_LB) = Some n"
  shows "n < length (tris (buildTriangles rows cols)) \<and>
     \<not> isPointingUp (tris (buildTriangles rows cols) ! n) \<and>
     slots (buildTriangles rows cols) (aR (tris (buildTriangles rows cols) ! n), T_LT) = Some m"
proof -
  let ?b = "buildTriangles rows cols"
  let ?t = "tris ?b ! m"
  from up obtain p where p: "aT ?t = Some p" by (auto simp: isPointingUp_def)
  then have ts: "(aR ?t, T_LT) \<in> triSlots ?t"
    by (simp_all add: triSlots_def)
  from slot_tri[OF sl] obtain ss' where "slotSpec rows cols (aR ?t) T_LB = Some (tris ?b ! n, ss')"
    and n: "n < length (tris ?b)" .
  from slotSpec_T_LB[OF this(1)] have 2: "aT (tris ?b ! n) = None" "aR (tris ?b ! n) = aR ?t" by simp_all
  from tri_slot[OF m ts] have "slots ?b (aR ?t, T_LT) = Some m" .
  with 2 n show ?thesis by (simp add: isPointingUp_def)
qed

lemma down_right:
  assumes m: "m < length (tris (buildTriangles rows cols))"
    and down: "\<not> isPointingUp (tris (buildTriangles rows cols) ! m)"
    and sl: "slots (buildTriangles rows cols) (aR (tris (buildTriangles rows cols) ! m), T_B) = Some n"
  shows "n < length (tris (buildTriangles rows cols)) \<and>
     isPointingUp (tris (buildTriangles rows cols) ! n) \<and>
     slots (buildTriangles rows cols) (aL (tris (buildTriangles rows cols) ! n), T_T) = Some m"
proof -
  let ?b = "buildTriangles rows cols"
  let ?t = "tris ?b ! m"
  from down have up: "aT ?t = None" by (simp add: not_isPointingUp)
  then have ts: "(aR ?t, T_LB) \<in> triSlots ?t" by (simp add: triSlots_def)
  from tri_slot[OF m ts] obtain ss where "slotSpec rows cols (aR ?t) T_LB = Some (?t, ss)" .
  from slotSpec_T_LB[OF this] obtain p where p: "aB ?t = Some p"
    and 1: "link rows cols (aR ?t) A_BL = Some p" by auto
  from p up have tp: "(p, T_T) \<in> triSlots ?t" by (simp add: triSlots_def)
  from slot_tri[OF sl] obtain ss' where "slotSpec rows cols (aR ?t) T_B = Some (tris ?b ! n, ss')"
    and n: "n < length (tris ?b)" .
  from slotSpec_T_B[OF this(1)] 1 have 2: "aT (tris ?b ! n) \<noteq> None" "aL (tris ?b ! n) = p" by simp_all
  from tri_slot[OF m tp] have "slots ?b (p, T_T) = Some m" .
  with 2 n show ?thesis by (simp add: isPointingUp_def)
qed

lemma down_left:
  assumes m: "m < length (tris (buildTriangles rows cols))"
    and down: "\<not> isPointingUp (tris (buildTriangles rows cols) ! m)"
    and sl: "slots (buildTriangles rows cols) (aL (tris (buildTriangles rows cols) ! m), T_B) = Some n"
  shows "n < length (tris (buildTriangles rows cols)) \<and>
     isPointingUp (tris (buildTriangles rows cols) ! n) \<and>
     slots (buildTriangles rows cols) (aR (tris (buildTriangles rows cols) ! n), T_T) = Some m"
proof -
  let ?b = "buildTriangles rows cols"
  let ?t = "tris ?b ! m"
  from down have up: "aT ?t = None" by (simp add: not_isPointingUp)
  then have ts: "(aL ?t, T_RB) \<in> triSlots ?t" by (simp add: triSlots_def)
  from tri_slot[OF m ts] obtain ss where "slotSpec rows cols (aL ?t) T_RB = Some (?t, ss)" .
  from slotSpec_T_RB[OF this] obtain p where p: "aB ?t = Some p"
    and 1: "link rows cols (aL ?t) A_BR = Some p" by auto
  from p up have tp: "(p, T_T) \<in> triSlots ?t" by (simp add: triSlots_def)
  from slot_tri[OF sl] obtain ss' where "slotSpec rows cols (aL ?t) T_B = Some (tris ?b ! n, ss')"
    and n: "n < length (tris ?b)" .
  from slotSpec_T_B[OF this(1)] 1 have 2: "aT (tris ?b ! n) \<noteq> None" "aR (tris ?b ! n) = p" by simp_all
  from tri_slot[OF m tp] have "slots ?b (p, T_T) = Some m" .
  with 2 n show ?thesis by (simp add: isPointingUp_def)
qed

lemma down_back:
  assumes m: "m < length (tris (buildTriangles rows cols))"
    and down: "\<not> isPointingUp (tris (buildTriangles rows cols) ! m)"
    and sl: "slots (buildTriangles rows cols) (aR (tris (buildTriangles rows cols) ! m), T_LT) = Some n"
  shows "n < length (tris (buildTriangles rows cols)) \<and>
     isPointingUp (tris (buildTriangles rows cols) ! n) \<and>
     slots (buildTriangles rows cols) (aR (tris (buildTriangles rows cols) ! n), T_LB) = Some m"
proof -
  let ?b = "buildTriangles rows cols"
  let ?t = "tris ?b ! m"
  from down have up: "aT ?t = None" by (simp add: not_isPointingUp)
  then have ts: "(aR ?t, T_LB) \<in> triSlots ?t" by (simp add: triSlots_def)
  from slot_tri[OF sl] obtain ss' where "slotSpec rows cols (aR ?t) T_LT = Some (tris ?b ! n, ss')"
    and n: "n < length (tris ?b)" .
  from slotSpec_T_LT[OF this(1)] have 2: "aT (tris ?b ! n) \<noteq> None" "aR (tris ?b ! n) = aR ?t" by simp_all
  from tri_slot[OF m ts] have "slots ?b (aR ?t, T_LB) = Some m" .
  with 2 n show ?thesis by (simp add: isPointingUp_def)
qed

lemma right_is_left:
  assumes m: "m < length (tris (buildTriangles rows cols))"
    and sl: "(if isPointingUp (tris (buildTriangles rows cols) ! m)
              then slots (buildTriangles rows cols) (aR (tris (buildTriangles rows cols) ! m), T_T)
              else slots (buildTriangles rows cols) (aR (tris (buildTriangles rows cols) ! m), T_B)) = Some n"
  shows "n < length (tris (buildTriangles rows cols)) \<and>
     (if isPointingUp (tris (buildTriangles rows cols) ! n)
      then slots (buildTriangles rows cols) (aL (tris (buildTriangles rows cols) ! n), T_T)
      else slots (buildTriangles rows cols) (aL (tris (buildTriangles rows cols) ! n), T_B)) = Some m"
proof (cases "isPointingUp (tris (buildTriangles rows cols) ! m)")
  case True
  with sl have "slots (buildTriangles rows cols) (aR (tris (buildTriangles rows cols) ! m), T_T) = Some n"
    by simp
  from up_right[OF m True this] show ?thesis by simp
next
  case False
  with sl have "slots (buildTriangles rows cols) (aR (tris (buildTriangles rows cols) ! m), T_B) = Some n"
    by simp
  from down_right[OF m False this] show ?thesis by simp
qed

lemma left_is_right:
  assumes m: "m < length (tris (buildTriangles rows cols))"
    and sl: "(if isPointingUp (tris (buildTriangles rows cols) ! m)
              then slots (buildTriangles rows cols) (aL (tris (buildTriangles rows cols) ! m), T_T)
              else slots (buildTriangles rows cols) (aL (tris (buildTriangles rows cols) ! m), T_B)) = Some n"
  shows "n < length (tris (buildTriangles rows cols)) \<and>
     (if isPointingUp (tris (buildTriangles rows cols) ! n)
      then slots (buildTriangles rows cols) (aR (tris (buildTriangles rows cols) ! n), T_T)
      else slots (buildTriangles rows cols) (aR (tris (buildTriangles rows cols) ! n), T_B)) = Some m"
proof (cases "isPointingUp (tris (buildTriangles rows cols) ! m)")
  case True
  with sl have "slots (buildTriangles rows cols) (aL (tris (buildTriangles rows cols) ! m), T_T) = Some n"
    by simp
  from up_left[OF m True this] show ?thesis by simp
next
  case False
  with sl have "slots (buildTriangles rows cols) (aL (tris (buildTriangles rows cols) ! m), T_B) = Some n"
    by simp
  from down_left[OF m False this] show ?thesis by simp
qed

lemma back_is_back:
  assumes m: "m < length (tris (buildTriangles rows cols))"
    and sl: "(if isPointingUp (tris (buildTriangles rows cols) ! m)
              then slots (buildTriangles rows cols) (aR (tris (buildTriangles rows cols) ! m), T_LB)
              else slots (buildTriangles rows cols) (aR (tris (buildTriangles rows cols) ! m), T_LT)) = Some n"
  shows "n < length (tris (buildTriangles rows cols)) \<and>
     (if isPointingUp (tris (buildTriangles rows cols) ! n)
      then slots (buildTriangles rows cols) (aR (tris (buildTriangles rows cols) ! n), T_LB)
      else slots (buildTriangles rows cols) (aR (tris (buildTriangles rows cols) ! n), T_LT)) = Some m"
proof (cases "isPointingUp (tris (buildTriangles rows cols) ! m)")
  case True
  with sl have "slots (buildTriangles rows cols) (aR (tris (buildTriangles rows cols) ! m), T_LB) = Some n"
    by simp
  from up_back[OF m True this] show ?thesis by simp
next
  case False
  with sl have "slots (buildTriangles rows cols) (aR (tris (buildTriangles rows cols) ! m), T_LT) = Some n"
    by simp
  from down_back[OF m False this] show ?thesis by simp
qed

text \<open>
  C1. For every \<open>rows \<ge> 2\<close> and \<open>cols \<ge> 2\<close> genTriangles returns a lattice in which
  every triangle \<open>m\<close> carries its own index, and: if its tR slot points to triangle \<open>n\<close>
  then \<open>n\<close>'s tL slot points back to \<open>m\<close>; if its tL slot points to \<open>n\<close> then \<open>n\<close>'s
  tR slot points back to \<open>m\<close>; and if its back slot (tB of an up-pointing triangle, tT of
  a down-pointing one) points to \<open>n\<close> then \<open>n\<close>'s back slot points back to \<open>m\<close>.
\<close>

theorem adjacency_symmetric:
  assumes "2 \<le> rows" "2 \<le> cols"
  shows "\<exists>lat. genTriangles rows cols distance padding = Inr lat \<and>
    (\<forall>m < length (triangles lat). idx (triangles lat ! m) = m \<and>
       (\<forall>n. tR (triangles lat ! m) = Some n \<longrightarrow>
              n < length (triangles lat) \<and> tL (triangles lat ! n) = Some m) \<and>
       (\<forall>n. tL (triangles lat ! m) = Some n \<longrightarrow>
              n < length (triangles lat) \<and> tR (triangles lat ! n) = Some m) \<and>
       (\<forall>n. triangleBack (triangles lat ! m) = Some n \<longrightarrow>
              n < length (triangles lat) \<and> triangleBack (triangles lat ! n) = Some m))"
proof -
  let ?b = "buildTriangles rows cols"
  define fin where "fin = (\<lambda>n. finishTri distance padding
                          (anchorX distance (rows - 1, cols - 1) / 2)
                          (anchorY distance (rows - 1, cols - 1) / 2)
                          (slots ?b) n (tris ?b ! n))"
  define lat where "lat = \<lparr>triangles = map fin [0..<length (tris ?b)],
                           anchors = anchorGrid rows cols distance (slots ?b)\<rparr>"
  have gen: "genTriangles rows cols distance padding = Inr lat"
    using assms unfolding genTriangles_eq lat_def fin_def by simp
  have len: "length (triangles lat) = length (tris ?b)" by (simp add: lat_def)
  have nth: "triangles lat ! m = fin m" if "m < length (tris ?b)" for m
    using that by (simp add: lat_def)
  have flds: "idx (fin m) = m"
    "tR (fin m) = (if isPointingUp (tris ?b ! m) then slots ?b (aR (tris ?b ! m), T_T)
                   else slots ?b (aR (tris ?b ! m), T_B))"
    "tL (fin m) = (if isPointingUp (tris ?b ! m) then slots ?b (aL (tris ?b ! m), T_T)
                   else slots ?b (aL (tris ?b ! m), T_B))"
    "triangleBack (fin m) = (if isPointingUp (tris ?b ! m) then slots ?b (aR (tris ?b ! m), T_LB)
                   else slots ?b (aR (tris ?b ! m), T_LT))" for m
    unfolding fin_def finishTri_fields by (rule refl)+
  have s0: "idx (triangles lat ! m) = m" if m: "m < length (tris ?b)" for m
    unfolding nth[OF m] flds by (rule refl)
  have s1: "n < length (triangles lat) \<and> tL (triangles lat ! n) = Some m"
    if m: "m < length (tris ?b)" and h: "tR (triangles lat ! m) = Some n" for m n
    using right_is_left[OF m h[unfolded nth[OF m] flds]] by (simp add: len nth flds)
  have s2: "n < length (triangles lat) \<and> tR (triangles lat ! n) = Some m"
    if m: "m < length (tris ?b)" and h: "tL (triangles lat ! m) = Some n" for m n
    using left_is_right[OF m h[unfolded nth[OF m] flds]] by (simp add: len nth flds)
  have s3: "n < length (triangles lat) \<and> triangleBack (triangles lat ! n) = Some m"
    if m: "m < length (tris ?b)" and h: "triangleBack (triangles lat ! m) = Some n" for m n
    using back_is_back[OF m h[unfolded nth[OF m] flds]] by (simp add: len nth flds)
  have sym: "idx (triangles lat ! m) = m \<and>
       (\<forall>n. tR (triangles lat ! m) = Some n \<longrightarrow>
              n < length (triangles lat) \<and> tL (triangles lat ! n) = Some m) \<and>
       (\<forall>n. tL (triangles lat ! m) = Some n \<longrightarrow>
              n < length (triangles lat) \<and> tR (triangles lat ! n) = Some m) \<and>
       (\<forall>n. triangleBack (triangles lat ! m) = Some n \<longrightarrow>
              n < length (triangles lat) \<and> triangleBack (triangles lat ! n) = Some m)"
    if m0: "m < length (triangles lat)" for m
  proof -
    from m0 have m: "m < length (tris ?b)" by (simp only: len)
    show ?thesis using s0[OF m] s1[OF m] s2[OF m] s3[OF m] by blast
  qed
  show ?thesis
    by (rule exI[of _ lat], rule conjI[OF gen], intro allI impI, erule sym)
qed


text \<open>The lattice of 2 rows and 2 columns has two triangles, side by side.\<close>

lemma build22:
  "length (tris (buildTriangles 2 2)) = 2"
  "tris (buildTriangles 2 2) ! 0 = \<lparr>aL = (0, 0), aR = (0, 1), aT = Some (1, 0), aB = None\<rparr>"
  "slots (buildTriangles 2 2) ((0, 1), T_T) = Some 1"
  by code_simp+

theorem adjacency_symmetric_witness:
  "(2::int) \<le> 2 \<and> (2::int) \<le> 2 \<and>
   (\<exists>lat. genTriangles 2 2 1 0 = Inr lat \<and> length (triangles lat) = 2 \<and>
      tR (triangles lat ! 0) = Some 1 \<and> tL (triangles lat ! 1) = Some 0)"
proof -
  from adjacency_symmetric[of 2 2 1 0] obtain lat where
    gen: "genTriangles 2 2 1 0 = Inr lat" and
    sym: "\<forall>m < length (triangles lat). idx (triangles lat ! m) = m \<and>
       (\<forall>n. tR (triangles lat ! m) = Some n \<longrightarrow>
              n < length (triangles lat) \<and> tL (triangles lat ! n) = Some m) \<and>
       (\<forall>n. tL (triangles lat ! m) = Some n \<longrightarrow>
              n < length (triangles lat) \<and> tR (triangles lat ! n) = Some m) \<and>
       (\<forall>n. triangleBack (triangles lat ! m) = Some n \<longrightarrow>
              n < length (triangles lat) \<and> triangleBack (triangles lat ! n) = Some m)"
    by auto
  from gen have len: "length (triangles lat) = 2"
    and r: "tR (triangles lat ! 0) = Some 1"
    by (auto simp: genTriangles_eq build22 finishTri_fields isPointingUp_def simp del: upt_Suc)
  have "0 < length (triangles lat)" by (simp add: len)
  with sym have "\<forall>n. tR (triangles lat ! 0) = Some n \<longrightarrow>
              n < length (triangles lat) \<and> tL (triangles lat ! n) = Some 0" by blast
  with r have "tL (triangles lat ! 1) = Some 0" by blast
  with gen len r show ?thesis by simp
qed

section \<open>Every triangle has a neighbour, so every head moves\<close>

lemma up_has_neighbour:
  assumes "inGrid rows cols q" "link rows cols q A_L \<noteq> None" "link rows cols q A_TL \<noteq> None"
  shows "link rows cols q A_BL \<noteq> None \<or> link rows cols q A_TR \<noteq> None"
  using assms
  by (cases q) (auto simp: inGrid_def anchorAt_def colAnchorLeft_def colAnchorRight_def split: if_splits)

lemma down_has_neighbour:
  assumes "inGrid rows cols q" "link rows cols q A_L = Some l" "link rows cols q A_BL \<noteq> None"
  shows "link rows cols q A_TL \<noteq> None \<or> link rows cols q A_BR \<noteq> None \<or>
         (link rows cols l A_BL \<noteq> None \<and> link rows cols l A_BR \<noteq> None)"
  using assms
  by (cases q) (auto simp: inGrid_def anchorAt_def colAnchorLeft_def colAnchorRight_def split: if_splits)

lemma slotSpec_defined:
  "slotSpec rows cols a T_T \<noteq> None \<longleftrightarrow> link rows cols a A_TL \<noteq> None \<and> link rows cols a A_TR \<noteq> None"
  "slotSpec rows cols a T_B \<noteq> None \<longleftrightarrow> link rows cols a A_BL \<noteq> None \<and> link rows cols a A_BR \<noteq> None"
  "slotSpec rows cols a T_LT \<noteq> None \<longleftrightarrow> link rows cols a A_L \<noteq> None \<and> link rows cols a A_TL \<noteq> None"
  "slotSpec rows cols a T_LB \<noteq> None \<longleftrightarrow> link rows cols a A_L \<noteq> None \<and> link rows cols a A_BL \<noteq> None"
  by (auto split: option.splits)

lemma has_neighbour:
  assumes m: "m < length (tris (buildTriangles rows cols))"
  shows "(if isPointingUp (tris (buildTriangles rows cols) ! m)
          then slots (buildTriangles rows cols) (aL (tris (buildTriangles rows cols) ! m), T_T)
          else slots (buildTriangles rows cols) (aL (tris (buildTriangles rows cols) ! m), T_B)) \<noteq> None \<or>
         (if isPointingUp (tris (buildTriangles rows cols) ! m)
          then slots (buildTriangles rows cols) (aR (tris (buildTriangles rows cols) ! m), T_T)
          else slots (buildTriangles rows cols) (aR (tris (buildTriangles rows cols) ! m), T_B)) \<noteq> None \<or>
         (if isPointingUp (tris (buildTriangles rows cols) ! m)
          then slots (buildTriangles rows cols) (aR (tris (buildTriangles rows cols) ! m), T_LB)
          else slots (buildTriangles rows cols) (aR (tris (buildTriangles rows cols) ! m), T_LT)) \<noteq> None"
proof (cases "isPointingUp (tris (buildTriangles rows cols) ! m)")
  let ?b = "buildTriangles rows cols"
  let ?t = "tris ?b ! m"
  case True
  then obtain p where p: "aT ?t = Some p" by (auto simp: isPointingUp_def)
  then have ts: "(aR ?t, T_LT) \<in> triSlots ?t" by (simp add: triSlots_def)
  from tri_slot[OF m ts] obtain ss where spec: "slotSpec rows cols (aR ?t) T_LT = Some (?t, ss)"
    and q: "inGrid rows cols (aR ?t)" .
  from slotSpec_T_LT[OF spec] have l: "link rows cols (aR ?t) A_L \<noteq> None"
    "link rows cols (aR ?t) A_TL \<noteq> None" by simp_all
  from up_has_neighbour[OF q l] l
  have "slotSpec rows cols (aR ?t) T_LB \<noteq> None \<or> slotSpec rows cols (aR ?t) T_T \<noteq> None"
    unfolding slotSpec_defined by blast
  then have "slots ?b (aR ?t, T_LB) \<noteq> None \<or> slots ?b (aR ?t, T_T) \<noteq> None"
    using buildTriangles_fills[OF q] by blast
  with True show ?thesis by (simp del: not_None_eq) blast
next
  let ?b = "buildTriangles rows cols"
  let ?t = "tris ?b ! m"
  case False
  then have up: "aT ?t = None" by (simp add: not_isPointingUp)
  then have ts: "(aR ?t, T_LB) \<in> triSlots ?t" by (simp add: triSlots_def)
  from tri_slot[OF m ts] obtain ss where spec: "slotSpec rows cols (aR ?t) T_LB = Some (?t, ss)"
    and q: "inGrid rows cols (aR ?t)" .
  from slotSpec_T_LB[OF spec] have l: "link rows cols (aR ?t) A_L = Some (aL ?t)"
    "link rows cols (aR ?t) A_BL \<noteq> None" by simp_all
  from link_inGrid[OF l(1)] have ql: "inGrid rows cols (aL ?t)" .
  from down_has_neighbour[OF q l] l
  have "slotSpec rows cols (aR ?t) T_LT \<noteq> None \<or> slotSpec rows cols (aR ?t) T_B \<noteq> None \<or>
        slotSpec rows cols (aL ?t) T_B \<noteq> None"
    unfolding slotSpec_defined by blast
  then have "slots ?b (aR ?t, T_LT) \<noteq> None \<or> slots ?b (aR ?t, T_B) \<noteq> None \<or>
        slots ?b (aL ?t, T_B) \<noteq> None"
    using buildTriangles_fills[OF q] buildTriangles_fills[OF ql] by blast
  with False show ?thesis by (simp del: not_None_eq) blast
qed


lemma baseFavour_nonneg: "0 \<le> baseFavour nt prevTri fading"
  by (simp add: baseFavour_def split: option.splits)

lemma baseFavour_defined: "nt \<noteq> None \<Longrightarrow> 1 \<le> baseFavour nt prevTri fading"
  by (auto simp: baseFavour_def split: option.splits)

lemma baseFavour_positive: "0 < baseFavour nt prevTri fading \<Longrightarrow> nt \<noteq> None"
  by (auto simp: baseFavour_def split: option.splits)

lemma totalFavour_nextProps:
  "totalFavour (nextProps t prevTri fading) =
     baseFavour (tL t) prevTri fading + baseFavour (tR t) prevTri fading +
     baseFavour (triangleBack t) prevTri fading"
  by (simp add: totalFavour_def nextProps_def triProp_back) (simp add: triProp_def)

lemma totalFavour_ge_1:
  assumes "tL t \<noteq> None \<or> tR t \<noteq> None \<or> triangleBack t \<noteq> None"
  shows "1 \<le> totalFavour (nextProps t prevTri fading)"
proof -
  note nn = baseFavour_nonneg[of "tL t" prevTri fading] baseFavour_nonneg[of "tR t" prevTri fading]
    baseFavour_nonneg[of "triangleBack t" prevTri fading]
  from assms consider "tL t \<noteq> None" | "tR t \<noteq> None" | "triangleBack t \<noteq> None" by blast
  then show ?thesis
  proof cases
    case 1
    from baseFavour_defined[OF this, of prevTri fading] nn show ?thesis
      unfolding totalFavour_nextProps by linarith
  next
    case 2
    from baseFavour_defined[OF this, of prevTri fading] nn show ?thesis
      unfolding totalFavour_nextProps by linarith
  next
    case 3
    from baseFavour_defined[OF this, of prevTri fading] nn show ?thesis
      unfolding totalFavour_nextProps by linarith
  qed
qed

lemma nextNeighbor_defined:
  assumes nb: "tL t \<noteq> None \<or> tR t \<noteq> None \<or> triangleBack t \<noteq> None"
    and r: "0 \<le> random" "random < 1"
  shows "\<exists>n. nextNeighbor (nextProps t prevTri fading) random = Some n \<and>
              (tL t = Some n \<or> tR t = Some n \<or> triangleBack t = Some n)"
proof -
  let ?nps = "nextProps t prevTri fading"
  let ?r = "random * totalFavour ?nps"
  from totalFavour_ge_1[OF nb, of prevTri fading] have tot: "0 < totalFavour ?nps" by linarith
  with r have r0: "0 \<le> ?r" and r1: "?r < totalFavour ?nps" by simp_all
  from selectProp_exists[OF r1 r0] obtain np where np: "selectProp ?nps ?r = Some np" ..
  then obtain k where k: "k < length ?nps" "np = (?nps ! k)\<lparr>favour := cumulativeWeight ?nps k\<rparr>"
    "?r < cumulativeWeight ?nps k" "\<forall>j < k. cumulativeWeight ?nps j \<le> ?r"
    unfolding selectProp_Some by blast
  from first_positive[OF r0 k(1,3,4)] have pos: "0 < favour (?nps ! k)" .
  from k(1) have "?nps ! k \<in> set ?nps" by (rule nth_mem)
  then obtain p where p: "p \<in> {P_tL, P_tR, triangleBackProp t}"
    and nk: "?nps ! k = \<lparr>propKey = p, tri = triProp t p,
        favour = baseFavour (triProp t p) prevTri fading\<rparr>"
    unfolding nextProps_def by auto
  from pos nk have "triProp t p \<noteq> None" by (simp add: baseFavour_positive)
  then obtain n where n: "triProp t p = Some n" by blast
  from np k(2) nk n have "nextNeighbor ?nps random = Some n" by (simp add: nextNeighbor_def)
  moreover from p n have "tL t = Some n \<or> tR t = Some n \<or> triangleBack t = Some n"
    using triProp_back[of t] by (auto simp: triProp_def)
  ultimately show ?thesis by blast
qed

text \<open>
  C6. For every \<open>rows \<ge> 2\<close> and \<open>cols \<ge> 2\<close> genTriangles returns a lattice in which
  every triangle has a defined neighbour among its left, right and back slots. Hence,
  whatever the previous head and the fading set, the total favour of the candidates of a
  head on that triangle is at least 1, and for every value of Math.random in \<open>[0, 1)\<close> a
  candidate is selected: the next neighbour is defined and is a triangle of the lattice.
\<close>

theorem head_always_moves:
  assumes "2 \<le> rows" "2 \<le> cols"
  shows "\<exists>lat. genTriangles rows cols distance padding = Inr lat \<and>
    (\<forall>m < length (triangles lat).
       (tL (triangles lat ! m) \<noteq> None \<or> tR (triangles lat ! m) \<noteq> None \<or>
        triangleBack (triangles lat ! m) \<noteq> None) \<and>
       (\<forall>prevTri fading.
          1 \<le> totalFavour (nextProps (triangles lat ! m) prevTri fading) \<and>
          (\<forall>random. 0 \<le> random \<and> random < 1 \<longrightarrow>
             (\<exists>n < length (triangles lat).
                nextNeighbor (nextProps (triangles lat ! m) prevTri fading) random = Some n))))"
proof -
  let ?b = "buildTriangles rows cols"
  define fin where "fin = (\<lambda>n. finishTri distance padding
                          (anchorX distance (rows - 1, cols - 1) / 2)
                          (anchorY distance (rows - 1, cols - 1) / 2)
                          (slots ?b) n (tris ?b ! n))"
  define lat where "lat = \<lparr>triangles = map fin [0..<length (tris ?b)],
                           anchors = anchorGrid rows cols distance (slots ?b)\<rparr>"
  have gen: "genTriangles rows cols distance padding = Inr lat"
    using assms unfolding genTriangles_eq lat_def fin_def by simp
  have len: "length (triangles lat) = length (tris ?b)" by (simp add: lat_def)
  have nth: "triangles lat ! m = fin m" if "m < length (tris ?b)" for m
    using that by (simp add: lat_def)
  have flds:
    "tR (fin m) = (if isPointingUp (tris ?b ! m) then slots ?b (aR (tris ?b ! m), T_T)
                   else slots ?b (aR (tris ?b ! m), T_B))"
    "tL (fin m) = (if isPointingUp (tris ?b ! m) then slots ?b (aL (tris ?b ! m), T_T)
                   else slots ?b (aL (tris ?b ! m), T_B))"
    "triangleBack (fin m) = (if isPointingUp (tris ?b ! m) then slots ?b (aR (tris ?b ! m), T_LB)
                   else slots ?b (aR (tris ?b ! m), T_LT))" for m
    unfolding fin_def finishTri_fields by (rule refl)+
  have main: "(tL (triangles lat ! m) \<noteq> None \<or> tR (triangles lat ! m) \<noteq> None \<or>
        triangleBack (triangles lat ! m) \<noteq> None) \<and>
       (\<forall>prevTri fading.
          1 \<le> totalFavour (nextProps (triangles lat ! m) prevTri fading) \<and>
          (\<forall>random. 0 \<le> random \<and> random < 1 \<longrightarrow>
             (\<exists>n < length (triangles lat).
                nextNeighbor (nextProps (triangles lat ! m) prevTri fading) random = Some n)))"
    if m0: "m < length (triangles lat)" for m
  proof -
    from m0 have m: "m < length (tris ?b)" by (simp only: len)
    have nb: "tL (fin m) \<noteq> None \<or> tR (fin m) \<noteq> None \<or> triangleBack (fin m) \<noteq> None"
      unfolding flds using has_neighbour[OF m] by blast
    have rng: "n < length (tris ?b)"
      if "tL (fin m) = Some n \<or> tR (fin m) = Some n \<or> triangleBack (fin m) = Some n" for n
      using that right_is_left[OF m, of n] left_is_right[OF m, of n] back_is_back[OF m, of n]
      unfolding flds by blast
    have sel: "\<exists>n < length (tris ?b). nextNeighbor (nextProps (fin m) prevTri fading) random = Some n"
      if "0 \<le> random \<and> random < 1" for prevTri fading random
    proof -
      from that have "0 \<le> random" "random < 1" by simp_all
      from nextNeighbor_defined[OF nb this, of prevTri fading] rng show ?thesis by blast
    qed
    show ?thesis
      unfolding nth[OF m] len using nb totalFavour_ge_1[OF nb] sel by blast
  qed
  show ?thesis
    by (rule exI[of _ lat], rule conjI[OF gen], intro allI impI, erule main)
qed

theorem head_always_moves_witness:
  "(2::int) \<le> 2 \<and> (2::int) \<le> 2 \<and>
   (\<exists>lat. genTriangles 2 2 1 0 = Inr lat \<and> length (triangles lat) = 2 \<and>
      tR (triangles lat ! 0) = Some 1 \<and>
      1 \<le> totalFavour (nextProps (triangles lat ! 0) None []) \<and>
      (\<exists>n < 2. nextNeighbor (nextProps (triangles lat ! 0) None []) (1 / 2) = Some n))"
proof -
  from head_always_moves[of 2 2 1 0] obtain lat where
    gen: "genTriangles 2 2 1 0 = Inr lat" and
    mv: "\<forall>m < length (triangles lat).
       (tL (triangles lat ! m) \<noteq> None \<or> tR (triangles lat ! m) \<noteq> None \<or>
        triangleBack (triangles lat ! m) \<noteq> None) \<and>
       (\<forall>prevTri fading.
          1 \<le> totalFavour (nextProps (triangles lat ! m) prevTri fading) \<and>
          (\<forall>random. 0 \<le> random \<and> random < 1 \<longrightarrow>
             (\<exists>n < length (triangles lat).
                nextNeighbor (nextProps (triangles lat ! m) prevTri fading) random = Some n)))"
    by auto
  from gen have len: "length (triangles lat) = 2"
    and r: "tR (triangles lat ! 0) = Some 1"
    by (auto simp: genTriangles_eq build22 finishTri_fields isPointingUp_def simp del: upt_Suc)
  have "0 < length (triangles lat)" by (simp add: len)
  with mv have 1: "\<forall>prevTri fading.
          1 \<le> totalFavour (nextProps (triangles lat ! 0) prevTri fading) \<and>
          (\<forall>random. 0 \<le> random \<and> random < 1 \<longrightarrow>
             (\<exists>n < length (triangles lat).
                nextNeighbor (nextProps (triangles lat ! 0) prevTri fading) random = Some n))"
    by blast
  from 1 have 2: "1 \<le> totalFavour (nextProps (triangles lat ! 0) None [])" by blast
  have "(0::real) \<le> 1 / 2 \<and> (1::real) / 2 < 1" by simp
  with 1 have "\<exists>n < length (triangles lat).
      nextNeighbor (nextProps (triangles lat ! 0) None []) (1 / 2) = Some n" by blast
  with gen len r 2 show ?thesis by auto
qed

section \<open>The 3 by 3 lattice\<close>

lemma build33_length: "length (tris (buildTriangles 3 3)) = 8"
  by code_simp

lemma build33_slots:
  "slots (buildTriangles 3 3) ((1, 1), T_T) = Some 6"
  "slots (buildTriangles 3 3) ((1, 1), T_B) = Some 2"
  by code_simp+

lemma build33_tri0:
  "tris (buildTriangles 3 3) ! 0 = \<lparr>aL = (0, 0), aR = (0, 1), aT = Some (1, 0), aB = None\<rparr>"
  by code_simp

lemma length_triPosition: "length (triPosition distance padding t) = 9"
  by (simp add: triPosition_def)

lemma position_finishTri:
  "position (finishTri d p gx gy sl n t) = triPosition d p t"
  by (simp add: finishTri_def Let_def)

text \<open>
  C9. genTriangles(3, 3, 1, 0) returns a lattice with exactly 8 triangles; the anchor at
  row 1, column 1 has its tT and its tB field populated; the position array of the
  triangle at index 0 has length 9.
\<close>

theorem lattice_3x3:
  "\<exists>lat. genTriangles 3 3 1 0 = Inr lat \<and> length (triangles lat) = 8 \<and>
     atri (anchors lat ! 1 ! 1) T_T \<noteq> None \<and> atri (anchors lat ! 1 ! 1) T_B \<noteq> None \<and>
     length (position (triangles lat ! 0)) = 9"
proof -
  have up: "[0..2] = [0, 1, 2::int]" by (simp add: upto_rec1)
  show ?thesis
    by (simp add: genTriangles_eq build33_length build33_slots anchorGrid_def up
        position_finishTri length_triPosition)
qed

section \<open>Degenerate grids\<close>

lemma slotSpec_degenerate:
  "inGrid rows cols a \<Longrightarrow> rows = 1 \<or> cols = 1 \<Longrightarrow> slotSpec rows cols a k = None"
  by (cases a; cases k)
    (auto simp: inGrid_def anchorAt_def colAnchorLeft_def colAnchorRight_def
      split: option.splits if_splits)

lemma trySlot_degenerate:
  "inGrid rows cols a \<Longrightarrow> rows = 1 \<or> cols = 1 \<Longrightarrow> trySlot rows cols a b k = b"
  unfolding trySlot_def by (simp only: slotSpec_degenerate option.case)

lemma visit_degenerate:
  "inGrid rows cols a \<Longrightarrow> rows = 1 \<or> cols = 1 \<Longrightarrow> visit rows cols b a = b"
  unfolding visit_def by (simp only: foldl.simps trySlot_degenerate)

lemma foldl_visit_degenerate:
  "\<forall>a \<in> set as. inGrid rows cols a \<Longrightarrow> rows = 1 \<or> cols = 1 \<Longrightarrow>
     foldl (visit rows cols) b as = b"
  by (induction as arbitrary: b) (simp_all add: visit_degenerate)

lemma buildTriangles_degenerate:
  "rows = 1 \<or> cols = 1 \<Longrightarrow> tris (buildTriangles rows cols) = []"
  unfolding buildTriangles_def
  by (subst foldl_visit_degenerate) (simp_all add: set_gridRefs)

lemma length_anchorGrid:
  "length (anchorGrid rows cols distance sl) = nat rows"
  "set (map length (anchorGrid rows cols distance sl)) \<subseteq> {nat cols}"
  by (auto simp: anchorGrid_def)

text \<open>
  C5 (as amended). For integer arguments genTriangles returns normally exactly when
  \<open>rows \<ge> 1\<close> and \<open>cols \<ge> 1\<close>: then the anchor grid has \<open>rows\<close> rows of \<open>cols\<close>
  anchors, and the triangle list is empty when \<open>rows = 1\<close> or \<open>cols = 1\<close>. For
  \<open>rows \<le> 0\<close> or \<open>cols \<le> 0\<close> the read of the far-corner anchor throws a TypeError.
\<close>

theorem genTriangles_degenerate:
  "(rows < 1 \<or> cols < 1 \<longrightarrow> genTriangles rows cols distance padding = Inl TypeError) \<and>
   (1 \<le> rows \<and> 1 \<le> cols \<longrightarrow>
      (\<exists>lat. genTriangles rows cols distance padding = Inr lat \<and>
         length (anchors lat) = nat rows \<and>
         set (map length (anchors lat)) \<subseteq> {nat cols} \<and>
         (rows = 1 \<or> cols = 1 \<longrightarrow> triangles lat = [])))"
  using length_anchorGrid[of rows cols distance "slots (buildTriangles rows cols)"]
    buildTriangles_degenerate[of rows cols]
  by (auto simp: genTriangles_eq)

theorem genTriangles_degenerate_witness:
  "genTriangles 0 4 1 0 = Inl TypeError \<and>
   (\<exists>lat. genTriangles 1 4 1 0 = Inr lat \<and> length (anchors lat) = 1 \<and>
      set (map length (anchors lat)) \<subseteq> {4} \<and> triangles lat = [])"
  using genTriangles_degenerate[of 0 4 1 0] genTriangles_degenerate[of 1 4 1 0]
  by simp

text \<open>An empty grid: no rows, or rows without anchors.\<close>

theorem genTriangles_empty_grid_throws:
  "genTriangles 0 0 0.05 0 = Inl TypeError \<and> genTriangles 0 3 0.05 0 = Inl TypeError \<and>
   genTriangles 3 0 0.05 0 = Inl TypeError"
  by (simp add: genTriangles_eq)

section \<open>Angular deltas\<close>

lemma atan2_range: "- pi < atan2 y x \<and> atan2 y x \<le> pi"
proof -
  note b = arctan_lbound[of "y / x"] arctan_ubound[of "y / x"] pi_gt_zero
  consider "x > 0" | "x < 0" "y \<ge> 0" | "x < 0" "y < 0" | "x = 0" "y > 0" | "x = 0" "y < 0"
    | "x = 0" "y = 0" by linarith
  then show ?thesis
  proof cases
    case 1
    then have "atan2 y x = arctan (y / x)" by (simp add: atan2_def)
    with b show ?thesis by linarith
  next
    case 2
    then have "y / x \<le> 0" by (simp add: divide_nonneg_neg)
    then have "arctan (y / x) \<le> 0" by simp
    moreover from 2 have "atan2 y x = arctan (y / x) + pi" by (simp add: atan2_def)
    ultimately show ?thesis using b by linarith
  next
    case 3
    then have "0 < y / x" by (simp add: divide_neg_neg)
    then have "0 < arctan (y / x)" by simp
    moreover from 3 have "atan2 y x = arctan (y / x) - pi" by (simp add: atan2_def)
    ultimately show ?thesis using b by linarith
  next
    case 4
    then have "atan2 y x = pi / 2" by (simp add: atan2_def)
    with b show ?thesis by linarith
  next
    case 5
    then have "atan2 y x = - (pi / 2)" by (simp add: atan2_def)
    with b show ?thesis by linarith
  next
    case 6
    then have "atan2 y x = 0" by (simp add: atan2_def)
    with b show ?thesis by linarith
  qed
qed

lemma angleChange_range:
  "- (2 * pi) < angleChange ts t (atan2 y x) n \<and> angleChange ts t (atan2 y x) n < 2 * pi"
  using atan2_range[of y x]
    atan2_range[of "centerY (ts ! n) - centerY t" "centerX (ts ! n) - centerX t"]
  unfolding angleChange_def by linarith

lemma addAngles_fields:
  "tL t = Some n \<Longrightarrow> globalAngleChange_tL (addAngles ts t) =
     Some (angleChange ts t (atan2 (globalOffsetY t) (globalOffsetX t)) n)"
  "tR t = Some n \<Longrightarrow> globalAngleChange_tR (addAngles ts t) =
     Some (angleChange ts t (atan2 (globalOffsetY t) (globalOffsetX t)) n)"
  "tT t = Some n \<Longrightarrow> globalAngleChange_tT (addAngles ts t) =
     Some (angleChange ts t (atan2 (globalOffsetY t) (globalOffsetX t)) n)"
  "tB t = Some n \<Longrightarrow> globalAngleChange_tB (addAngles ts t) =
     Some (angleChange ts t (atan2 (globalOffsetY t) (globalOffsetX t)) n)"
  by (simp_all add: addAngles_def Let_def)

text \<open>
  C4 (as amended). For every triangle \<open>m\<close> of the array and every populated neighbour
  slot, the delta that addGlobalAngleChanges stores (the neighbour's bearing from the
  triangle's centroid minus the triangle's global angle) lies strictly between
  \<open>-2\<pi>\<close> and \<open>2\<pi>\<close>.
\<close>

theorem angle_change_range:
  assumes "m < length ts" and "f \<in> {(tL, globalAngleChange_tL), (tR, globalAngleChange_tR),
      (tT, globalAngleChange_tT), (tB, globalAngleChange_tB)}"
    and "fst f (ts ! m) = Some n"
  shows "\<exists>d. snd f (addGlobalAngleChanges ts ! m) = Some d \<and>
           d = atan2 (centerY (ts ! n) - centerY (ts ! m)) (centerX (ts ! n) - centerX (ts ! m))
               - atan2 (globalOffsetY (ts ! m)) (globalOffsetX (ts ! m)) \<and>
           - (2 * pi) < d \<and> d < 2 * pi"
proof -
  let ?t = "ts ! m"
  let ?d = "angleChange ts ?t (atan2 (globalOffsetY ?t) (globalOffsetX ?t)) n"
  from assms(1) have nth: "addGlobalAngleChanges ts ! m = addAngles ts ?t"
    by (simp add: addGlobalAngleChanges_def)
  from assms(2,3) have "snd f (addAngles ts ?t) = Some ?d"
    by (auto simp: addAngles_fields)
  with angleChange_range[of ts ?t "globalOffsetY ?t" "globalOffsetX ?t" n] show ?thesis
    unfolding nth by (simp add: angleChange_def)
qed

lemma build34:
  "length (tris (buildTriangles 3 4)) = 12"
  "tris (buildTriangles 3 4) ! 7 = \<lparr>aL = (1, 0), aR = (1, 1), aT = Some (2, 1), aB = None\<rparr>"
  "tris (buildTriangles 3 4) ! 1 = \<lparr>aL = (1, 0), aR = (1, 1), aT = None, aB = Some (0, 1)\<rparr>"
  "tris (buildTriangles 3 4) ! Suc 0 = \<lparr>aL = (1, 0), aR = (1, 1), aT = None, aB = Some (0, 1)\<rparr>"
  "slots (buildTriangles 3 4) ((1, 1), T_LB) = Some 1"
  by code_simp+

lemma arctan_sqrt3: "arctan (sqrt 3 / 3) = pi / 6"
proof (rule arctan_unique)
  show "- (pi / 2) < pi / 6" "pi / 6 < pi / 2" using pi_gt_zero by simp_all
  have "sqrt 3 * sqrt 3 = 3" by simp
  then show "tan (pi / 6) = sqrt 3 / 3" unfolding tan_30 by (simp add: field_simps)
qed

lemma exLattice: "genTriangles 3 4 1 0 = Inr exLattice"
  by (simp add: exLattice_def genTriangles_eq)

lemma exLattice_nth:
  "n < 12 \<Longrightarrow> triangles exLattice ! n =
     finishTri 1 0 (anchorX 1 (2, 3) / 2) (anchorY 1 (2, 3) / 2)
       (slots (buildTriangles 3 4)) n (tris (buildTriangles 3 4) ! n)"
  by (simp add: exLattice_def genTriangles_eq build34(1))

lemma exLattice_7:
  "tB (triangles exLattice ! 7) = Some 1"
  "centerX (triangles exLattice ! 7) = 1"
  "centerY (triangles exLattice ! 7) = 2 * sqrt 3 / 3"
  "globalOffsetX (triangles exLattice ! 7) = - (1 / 2)"
  "globalOffsetY (triangles exLattice ! 7) = sqrt 3 / 6"
  by (simp_all add: exLattice_nth build34 finishTri_def Let_def triPosition_def isPointingUp_def
      optX_def optY_def anchorX_def anchorY_def colInc_def rowInc_def cos_60 sin_60
      anchorPadX_def anchorPadY_def)

lemma exLattice_1:
  "centerX (triangles exLattice ! 1) = 1"
  "centerY (triangles exLattice ! 1) = sqrt 3 / 3"
  by (simp_all add: exLattice_nth build34 finishTri_def Let_def triPosition_def isPointingUp_def
      optX_def optY_def anchorX_def anchorY_def colInc_def rowInc_def cos_60 sin_60
      anchorPadX_def anchorPadY_def)

theorem angle_change_range_witness:
  "7 < length (triangles exLattice) \<and> tB (triangles exLattice ! 7) = Some 1 \<and>
   (\<exists>d. globalAngleChange_tB (addGlobalAngleChanges (triangles exLattice) ! 7) = Some d \<and>
        - (2 * pi) < d \<and> d < 2 * pi)"
proof -
  have len: "7 < length (triangles exLattice)"
    by (simp add: exLattice_def genTriangles_eq build34(1))
  from angle_change_range[OF len, of "(tB, globalAngleChange_tB)" 1] len exLattice_7(1)
  show ?thesis by auto
qed

text \<open>Triangle 7 of the 3 by 4 lattice lies up and to the left of the global centre and its
  back neighbour, triangle 1, lies straight below it: the stored delta is \<open>-4\<pi>/3\<close>.\<close>

theorem angle_change_outside_pi:
  "genTriangles 3 4 1 0 = Inr exLattice \<and>
   tB (triangles exLattice ! 7) = Some 1 \<and>
   globalAngleChange_tB (addGlobalAngleChanges (triangles exLattice) ! 7) = Some (- (4 * pi / 3)) \<and>
   - (4 * pi / 3) < - pi"
proof -
  have len: "7 < length (triangles exLattice)"
    by (simp add: exLattice_def genTriangles_eq build34(1))
  have ga: "atan2 (sqrt 3 / 6) (- (1 / 2)) = 5 * pi / 6"
  proof -
    have "sqrt 3 / 6 / (- (1 / 2)) = - (sqrt 3 / 3)" by simp
    then show ?thesis by (simp add: atan2_def arctan_minus arctan_sqrt3)
  qed
  have be: "atan2 (sqrt 3 / 3 - 2 * sqrt 3 / 3) (1 - 1) = - (pi / 2)"
    by (simp add: atan2_def)
  have "globalAngleChange_tB (addGlobalAngleChanges (triangles exLattice) ! 7) =
      Some (angleChange (triangles exLattice) (triangles exLattice ! 7)
        (atan2 (globalOffsetY (triangles exLattice ! 7)) (globalOffsetX (triangles exLattice ! 7))) 1)"
    using len by (simp add: addGlobalAngleChanges_def addAngles_fields exLattice_7(1))
  also have "\<dots> = Some (- (4 * pi / 3))"
    unfolding angleChange_def exLattice_7 exLattice_1 ga be by simp
  finally show ?thesis
    using exLattice exLattice_7(1) pi_gt_zero by simp
qed

section \<open>The fade sweep\<close>

lemma sweepEntry_throws:
  "sweepEntry lib k anim st =
     Inl (TypeError,
          st\<lparr>colorStore := (colorStore st)(color anim := animateColor lib (colorStore st (color anim)))\<rparr>)"
  by (simp add: sweepEntry_def getPositions_def)

lemma sweep_throws: "es \<noteq> [] \<Longrightarrow> \<exists>st'. sweep lib es st = Inl (TypeError, st')"
  by (cases es) (auto simp: sweepEntry_throws)

lemma fadingSet_nonempty: "fadingSet es k v \<noteq> []"
  by (cases es) (auto split: if_splits)

lemma headStep_fading:
  "headStep lib ts random st h = Inr st' \<Longrightarrow> fadingTriangles st' \<noteq> []"
  by (auto simp: headStep_def Let_def fadingSet_nonempty split: option.splits)

lemma headStep_error: "headStep lib ts random st h = Inl e \<Longrightarrow> fst e = TypeError"
  by (cases "fst e") simp

lemma headLoop_fading:
  "headLoop lib ts random hs st = Inr st' \<Longrightarrow> hs \<noteq> [] \<or> fadingTriangles st \<noteq> [] \<Longrightarrow>
     fadingTriangles st' \<noteq> []"
proof (induction hs arbitrary: st)
  case Nil
  then show ?case by simp
next
  case (Cons h hs)
  from Cons.prems(1) obtain st1 where 1: "headStep lib ts random st h = Inr st1"
    and 2: "headLoop lib ts random hs st1 = Inr st'"
    by (auto split: sum.splits)
  from headStep_fading[OF 1] Cons.IH[OF 2] show ?case by blast
qed

lemma headLoop_error:
  "headLoop lib ts random hs st = Inl e \<Longrightarrow> \<exists>st'. e = (TypeError, st')"
  by (cases e, cases "fst e") auto

text \<open>
  C8, at any state of the module's variables and any values of Math.random: a call of
  animate throws a TypeError. Either the loop over the heads throws, or it leaves a
  non-empty fading set and the sweep throws at its first entry, where it calls the method
  getPositions that AnimatedTriangle does not have.
\<close>

theorem tick_throws:
  "\<exists>st'. animate lib ts random st = Inl (TypeError, st')"
proof (cases "headLoop lib ts random [0..<heads] st")
  case (Inl e)
  with headLoop_error[OF Inl] show ?thesis by (auto simp: animate_def)
next
  case (Inr st1)
  have "[0..<heads] \<noteq> []" by (simp add: heads_def)
  with headLoop_fading[OF Inr] have ne: "fadingTriangles st1 \<noteq> []" by blast
  let ?st2 = "st1\<lparr>animColor := nextColor st1,
                        colorStore := (colorStore st1)
                          (nextColor st1 := offsetHSL lib (colorStore st1 (animColor st1)) 0.0002 0 0),
                        nextColor := Suc (nextColor st1)\<rparr>"
  from ne have "fadingTriangles ?st2 \<noteq> []" by simp
  from sweep_throws[OF this, of lib ?st2] Inr show ?thesis
    by (simp add: animate_def Let_def)
qed

text \<open>What animate() of AnimatedTriangle does to the lightness, for a colour library whose
  offsetHSL clamps the lightness into \<open>[0, 1]\<close> and whose black has lightness 0.\<close>

lemma animateColor_lightness:
  assumes "lightness lib (offsetHSL lib c 0 0 (- fadeInc)) = max 0 (min 1 (lightness lib c - fadeInc))"
    and "lightness lib (setRGB lib (offsetHSL lib c 0 0 (- fadeInc)) 0 0 0) = 0"
    and "0 \<le> lightness lib c"
  shows "0 \<le> lightness lib (animateColor lib c) \<and>
         lightness lib (animateColor lib c) \<le> lightness lib c"
  using assms by (auto simp: animateColor_def Let_def isFadedColor_def fadeInc_def)

text \<open>At any entry of the fading set the sweep darkens the entry's colour by animate()
  and then throws at the call of getPositions, before the statement that deletes a faded
  entry: the fading set is as it was.\<close>

lemma sweep_never_deletes:
  "\<exists>st'. sweepEntry lib k anim st = Inl (TypeError, st') \<and>
      colorStore st' (color anim) = animateColor lib (colorStore st (color anim)) \<and>
      fadingTriangles st' = fadingTriangles st"
  by (simp add: sweepEntry_throws)

end
